theory Spec2Isabelle
  imports
    Main
    "HOL-Library.Sublist"
    "HOL-Library.AList"
    "HOL-Library.Char_ord"
    "HOL-Library.List_Lexorder"
begin

section \<open>Values and exceptions\<close>

text \<open>
  A workflow graph (``prompt'') reaches the tracker as decoded JSON, and the persisted usage
  file is JSON too. A Python \<open>dict\<close> keeps insertion order, so an object is an association
  list; lookup reads the first binding of a key (a Python dict holds one binding per key).
  A float is carried as a mantissa and a binary exponent; no function of the tracker looks
  inside one.
\<close>

datatype json =
    JNull
  | JBool bool
  | JInt int
  | JFloat int int
  | JStr string
  | JList "json list"
  | JDict "(string \<times> json) list"

datatype py_error =
    AttributeError
  | TypeError
  | KeyError
  | OverflowError
  | JSONDecodeError
  | UnicodeDecodeError

text \<open>\<open>obj.get(key, default)\<close>: only a dict has the method \<open>get\<close>.\<close>

definition dict_get :: "json \<Rightarrow> string \<Rightarrow> json \<Rightarrow> py_error + json" where
  "dict_get obj key dflt =
     (case obj of
        JDict kvs \<Rightarrow> (case map_of kvs key of Some v \<Rightarrow> Inr v | None \<Rightarrow> Inr dflt)
      | _ \<Rightarrow> Inl AttributeError)"

text \<open>\<open>value and isinstance(value, str)\<close>: a non-empty string.\<close>

fun nonempty_str :: "json \<Rightarrow> bool" where
  "nonempty_str (JStr s) = (s \<noteq> [])"
| "nonempty_str _ = False"

fun str_of :: "json \<Rightarrow> string" where
  "str_of (JStr s) = s"
| "str_of _ = []"

text \<open>
  A \<open>string\<close> is the UTF-8 encoding of the Python text, so a character outside ASCII is a
  sequence of bytes from 128 up, and ASCII text occurs in a text exactly when its bytes occur
  in the encoding.

  \<open>str.lower()\<close>. The letters \<open>A\<close> to \<open>Z\<close> become \<open>a\<close> to \<open>z\<close>. Two characters outside
  ASCII have ASCII in their lower case: U+212A KELVIN SIGN (bytes E2 84 AA) becomes \<open>k\<close>, and
  U+0130 LATIN CAPITAL LETTER I WITH DOT ABOVE (bytes C4 B0) becomes \<open>i\<close> followed by U+0307
  (bytes CC 87). Every other character outside ASCII lowers to characters outside ASCII and
  is left as it is here: \<open>lower s\<close> and the encoding of \<open>s.lower()\<close> have the same runs of
  ASCII bytes, separated by other bytes at the same places, hence the same occurrences of
  every ASCII text, which is all the extraction asks of it. (The order of names that differ
  in upper-case letters outside ASCII is not modelled.)
\<close>

definition lower_char :: "char \<Rightarrow> char" where
  "lower_char c =
     (case map_of (zip ''ABCDEFGHIJKLMNOPQRSTUVWXYZ'' ''abcdefghijklmnopqrstuvwxyz'') c of
        Some l \<Rightarrow> l
      | None \<Rightarrow> c)"

fun lower_special :: "string \<Rightarrow> string" where
  "lower_special (a # b # c # s) =
     (if a = CHR 0xE2 \<and> b = CHR 0x84 \<and> c = CHR 0xAA then CHR ''k'' # lower_special s
      else if a = CHR 0xC4 \<and> b = CHR 0xB0
        then CHR ''i'' # CHR 0xCC # CHR 0x87 # lower_special (c # s)
      else a # lower_special (b # c # s))"
| "lower_special [a, b] =
     (if a = CHR 0xC4 \<and> b = CHR 0xB0 then [CHR ''i'', CHR 0xCC, CHR 0x87] else [a, b])"
| "lower_special s = s"

definition lower :: "string \<Rightarrow> string" where
  "lower s = lower_special (map lower_char s)"

text \<open>A byte that occurs in neither of the two sequences.\<close>

definition plain :: "char \<Rightarrow> bool" where
  "plain c = (c \<notin> {CHR 0xE2, CHR 0x84, CHR 0xAA, CHR 0xC4, CHR 0xB0})"

section \<open>model\_types.py\<close>

text \<open>
  A table entry names one input key or a list of them
  (\<open>tuple[str, str | list[str]]\<close>).
\<close>

datatype input_keys = OneKey string | ManyKeys "string list"

definition MODEL_LOADERS :: "(string \<times> (string \<times> input_keys)) list" where
  "MODEL_LOADERS =
     [(''CheckpointLoaderSimple'', (''checkpoint'', OneKey ''ckpt_name'')),
      (''CheckpointLoader'', (''checkpoint'', OneKey ''ckpt_name'')),
      (''LoraLoader'', (''lora'', OneKey ''lora_name'')),
      (''LoraLoaderModelOnly'', (''lora'', OneKey ''lora_name'')),
      (''VAELoader'', (''vae'', OneKey ''vae_name'')),
      (''ControlNetLoader'', (''controlnet'', OneKey ''control_net_name'')),
      (''CLIPLoader'', (''clip'', OneKey ''clip_name'')),
      (''DualCLIPLoader'', (''clip'', ManyKeys [''clip_name1'', ''clip_name2''])),
      (''UNETLoader'', (''unet'', OneKey ''unet_name'')),
      (''UpscaleModelLoader'', (''upscaler'', OneKey ''model_name'')),
      (''StyleModelLoader'', (''style_model'', OneKey ''style_model_name'')),
      (''GLIGENLoader'', (''gligen'', OneKey ''gligen_name'')),
      (''UnetLoaderGGUF'', (''gguf'', OneKey ''unet_name'')),
      (''UnetLoaderGGUFAdvanced'', (''gguf'', OneKey ''unet_name'')),
      (''CLIPLoaderGGUF'', (''gguf'', OneKey ''clip_name'')),
      (''DualCLIPLoaderGGUF'', (''gguf'', ManyKeys [''clip_name1'', ''clip_name2''])),
      (''TripleCLIPLoaderGGUF'',
         (''gguf'', ManyKeys [''clip_name1'', ''clip_name2'', ''clip_name3''])),
      (''QuadrupleCLIPLoaderGGUF'',
         (''gguf'', ManyKeys [''clip_name1'', ''clip_name2'', ''clip_name3'', ''clip_name4'']))]"

definition LOADER_PATTERNS :: "(string \<times> string \<times> string list) list" where
  "LOADER_PATTERNS =
     [(''Checkpoint'', ''checkpoint'', [''ckpt_name'', ''checkpoint'', ''model_name'']),
      (''Lora'', ''lora'', [''lora_name'', ''lora'']),
      (''VAE'', ''vae'', [''vae_name'', ''vae'']),
      (''ControlNet'', ''controlnet'', [''control_net_name'', ''controlnet'', ''control_net'']),
      (''CLIP'', ''clip'', [''clip_name'', ''clip'']),
      (''UNET'', ''unet'', [''unet_name'', ''unet'']),
      (''Upscale'', ''upscaler'', [''model_name'', ''upscale_model''])]"

section \<open>tracking.py: extraction\<close>

text \<open>The dict \<open>{"category": .., "name": .., "model_id": ..}\<close> built for a reference.\<close>

record model_ref =
  category :: string
  name :: string
  model_id :: string

text \<open>\<open>model_id = f"{category}/{value}"\<close> and the dict appended to \<open>models\<close>.\<close>

definition make_ref :: "string \<Rightarrow> string \<Rightarrow> model_ref" where
  "make_ref cat val = \<lparr>category = cat, name = val, model_id = cat @ ''/'' @ val\<rparr>"

text \<open>
  \<open>_extract_from_inputs\<close>: the loop over the keys, with the list built so far. A key whose
  value is not a non-empty string adds nothing; \<open>inputs.get\<close> raises when \<open>inputs\<close> is
  not a dict.
\<close>

fun inputs_loop :: "string \<Rightarrow> string list \<Rightarrow> json \<Rightarrow> model_ref list \<Rightarrow> py_error + model_ref list" where
  "inputs_loop cat [] inputs models = Inr models"
| "inputs_loop cat (key # keys) inputs models =
     (case dict_get inputs key JNull of
        Inl e \<Rightarrow> Inl e
      | Inr v \<Rightarrow>
          if nonempty_str v
          then inputs_loop cat keys inputs (models @ [make_ref cat (str_of v)])
          else inputs_loop cat keys inputs models)"

text \<open>\<open>if isinstance(input_keys, str): input_keys = [input_keys]\<close>\<close>

fun key_list :: "input_keys \<Rightarrow> string list" where
  "key_list (OneKey k) = [k]"
| "key_list (ManyKeys ks) = ks"

definition extract_from_inputs :: "string \<Rightarrow> input_keys \<Rightarrow> json \<Rightarrow> py_error + model_ref list" where
  "extract_from_inputs cat ik inputs = inputs_loop cat (key_list ik) inputs []"

text \<open>
  \<open>_extract_from_patterns\<close>. The inner loop leaves at the first key with a non-empty string
  (\<open>break\<close>); the outer loop leaves after the first pattern that occurs in the lowered type
  name, whatever the inner loop found.
\<close>

fun keys_scan :: "string \<Rightarrow> string list \<Rightarrow> json \<Rightarrow> py_error + model_ref list" where
  "keys_scan cat [] inputs = Inr []"
| "keys_scan cat (key # keys) inputs =
     (case dict_get inputs key JNull of
        Inl e \<Rightarrow> Inl e
      | Inr v \<Rightarrow>
          if nonempty_str v then Inr [make_ref cat (str_of v)]
          else keys_scan cat keys inputs)"

fun patterns_scan :: "(string \<times> string \<times> string list) list \<Rightarrow> string \<Rightarrow> json \<Rightarrow> py_error + model_ref list" where
  "patterns_scan [] ct inputs = Inr []"
| "patterns_scan ((pattern, cat, possible_keys) # rest) ct inputs =
     (if sublist (lower pattern) (lower ct) then keys_scan cat possible_keys inputs
      else patterns_scan rest ct inputs)"

text \<open>
  \<open>class_type.lower()\<close> exists for a string only; it is evaluated for the first pattern
  of the (non-empty) list.
\<close>

definition extract_from_patterns :: "json \<Rightarrow> json \<Rightarrow> py_error + model_ref list" where
  "extract_from_patterns class_type inputs =
     (case class_type of
        JStr ct \<Rightarrow> patterns_scan LOADER_PATTERNS ct inputs
      | _ \<Rightarrow> Inl AttributeError)"

text \<open>
  \<open>class_type in MODEL_LOADERS\<close> hashes the value: a list or a dict is unhashable. The keys
  of the table are strings, so no other value is found.
\<close>

definition loader_lookup :: "json \<Rightarrow> py_error + (string \<times> input_keys) option" where
  "loader_lookup class_type =
     (case class_type of
        JStr ct \<Rightarrow> Inr (map_of MODEL_LOADERS ct)
      | JList _ \<Rightarrow> Inl TypeError
      | JDict _ \<Rightarrow> Inl TypeError
      | _ \<Rightarrow> Inr None)"

text \<open>
  \<open>"Loader" in class_type\<close>: substring test on a string, membership on a list, key
  membership on a dict, \<open>TypeError\<close> on anything else.
\<close>

definition str_in :: "string \<Rightarrow> json \<Rightarrow> py_error + bool" where
  "str_in s v =
     (case v of
        JStr t \<Rightarrow> Inr (sublist s t)
      | JList xs \<Rightarrow> Inr (JStr s \<in> set xs)
      | JDict kvs \<Rightarrow> Inr (s \<in> set (map fst kvs))
      | _ \<Rightarrow> Inl TypeError)"

text \<open>
  One pass of the loop body of \<open>extract_models_from_prompt\<close> up to the list \<open>extracted\<close>
  (empty when neither branch is taken).
\<close>

definition node_models :: "json \<Rightarrow> py_error + model_ref list" where
  "node_models node_data =
     (case dict_get node_data ''class_type'' (JStr []) of
        Inl e \<Rightarrow> Inl e
      | Inr class_type \<Rightarrow>
     (case dict_get node_data ''inputs'' (JDict []) of
        Inl e \<Rightarrow> Inl e
      | Inr inputs \<Rightarrow>
     (case loader_lookup class_type of
        Inl e \<Rightarrow> Inl e
      | Inr (Some (cat, input_keys)) \<Rightarrow> extract_from_inputs cat input_keys inputs
      | Inr None \<Rightarrow>
     (case str_in ''Loader'' class_type of
        Inl e \<Rightarrow> Inl e
      | Inr True \<Rightarrow> extract_from_patterns class_type inputs
      | Inr False \<Rightarrow> Inr []))))"

text \<open>
  \<open>for model in extracted: if model["model_id"] not in seen: seen.add(..); models.append(..)\<close>
\<close>

fun add_unseen :: "model_ref list \<Rightarrow> model_ref list \<times> string set \<Rightarrow> model_ref list \<times> string set" where
  "add_unseen [] (models, seen) = (models, seen)"
| "add_unseen (m # ms) (models, seen) =
     (if model_id m \<notin> seen
      then add_unseen ms (models @ [m], insert (model_id m) seen)
      else add_unseen ms (models, seen))"

text \<open>The loop over \<open>prompt.items()\<close>, in insertion order; an exception ends it.\<close>

fun prompt_loop :: "(string \<times> json) list \<Rightarrow> model_ref list \<times> string set \<Rightarrow> py_error + model_ref list" where
  "prompt_loop [] (models, seen) = Inr models"
| "prompt_loop ((node_id, node_data) # rest) (models, seen) =
     (case node_models node_data of
        Inl e \<Rightarrow> Inl e
      | Inr extracted \<Rightarrow> prompt_loop rest (add_unseen extracted (models, seen)))"

definition extract_models_from_prompt :: "(string \<times> json) list \<Rightarrow> py_error + model_ref list" where
  "extract_models_from_prompt prompt = prompt_loop prompt ([], {})"


subsection \<open>What the extraction is compared with\<close>

text \<open>The value \<open>inputs.get(key)\<close> of a dict: \<open>None\<close> for an absent key.\<close>

definition input_value :: "(string \<times> json) list \<Rightarrow> string \<Rightarrow> json" where
  "input_value d key = (case map_of d key of Some v \<Rightarrow> v | None \<Rightarrow> JNull)"

text \<open>
  The first pattern of an ordered pattern list whose substring occurs case-insensitively in
  the type name, and the first candidate key whose value is a non-empty string.
\<close>

definition first_pattern :: "(string \<times> string \<times> string list) list \<Rightarrow> string \<Rightarrow> (string \<times> string \<times> string list) option" where
  "first_pattern pats ct = find (\<lambda>(pattern, cat, keys). sublist (lower pattern) (lower ct)) pats"

text \<open>Two type names that differ only in the case of ASCII letters.\<close>

definition same_up_to_case :: "string \<Rightarrow> string \<Rightarrow> bool" where
  "same_up_to_case a b = (map lower_char a = map lower_char b)"

definition first_key :: "(string \<times> json) list \<Rightarrow> string list \<Rightarrow> string option" where
  "first_key d keys = find (\<lambda>k. nonempty_str (input_value d k)) keys"

text \<open>
  Deduplication by identifier: the first occurrence stays, every later reference with the
  same identifier is dropped, the order of what stays is unchanged.
\<close>

fun dedup_by_id :: "model_ref list \<Rightarrow> model_ref list" where
  "dedup_by_id [] = []"
| "dedup_by_id (m # ms) = m # dedup_by_id (filter (\<lambda>x. model_id x \<noteq> model_id m) ms)"

text \<open>
  The references of all nodes in visitation order, before deduplication; the first node that
  raises decides the outcome.
\<close>

fun all_extracted :: "(string \<times> json) list \<Rightarrow> py_error + model_ref list" where
  "all_extracted [] = Inr []"
| "all_extracted ((node_id, node_data) # rest) =
     (case node_models node_data of
        Inl e \<Rightarrow> Inl e
      | Inr xs \<Rightarrow> (case all_extracted rest of Inl e \<Rightarrow> Inl e | Inr ys \<Rightarrow> Inr (xs @ ys)))"

text \<open>
  The shape of a node under which one pass of the loop does not raise: the node is a dict, its
  \<open>class_type\<close> (absent: \<open>""\<close>) is a string, and its \<open>inputs\<close> (absent: \<open>{}\<close>) is a dict
  whenever the type name makes the loop call \<open>inputs.get\<close>, that is, when the name is in the
  table or contains \<open>Loader\<close> and, after lowering, one of the lowered patterns.
\<close>

fun is_dict :: "json \<Rightarrow> bool" where
  "is_dict (JDict _) = True"
| "is_dict _ = False"

definition consults_inputs :: "string \<Rightarrow> bool" where
  "consults_inputs ct =
     (map_of MODEL_LOADERS ct \<noteq> None
      \<or> (sublist ''Loader'' ct \<and> first_pattern LOADER_PATTERNS ct \<noteq> None))"

definition node_ok :: "json \<Rightarrow> bool" where
  "node_ok node_data =
     (case node_data of
        JDict kvs \<Rightarrow>
          (case map_of kvs ''class_type'' of
             None \<Rightarrow> True
           | Some (JStr ct) \<Rightarrow>
               (case map_of kvs ''inputs'' of
                  None \<Rightarrow> True
                | Some v \<Rightarrow> is_dict v \<or> \<not> consults_inputs ct)
           | Some _ \<Rightarrow> False)
      | _ \<Rightarrow> False)"

text \<open>
  What a node contributes, said without the loops: for a table entry, one reference for each
  listed key whose value is a non-empty string; on the fallback path, the reference of the
  first pattern and first key; nothing otherwise.
\<close>

definition table_refs :: "string \<Rightarrow> string list \<Rightarrow> (string \<times> json) list \<Rightarrow> model_ref list" where
  "table_refs cat keys d =
     map (\<lambda>k. make_ref cat (str_of (input_value d k)))
         (filter (\<lambda>k. nonempty_str (input_value d k)) keys)"

definition pattern_refs :: "string \<Rightarrow> (string \<times> json) list \<Rightarrow> model_ref list" where
  "pattern_refs ct d =
     (case first_pattern LOADER_PATTERNS ct of
        None \<Rightarrow> []
      | Some (pattern, cat, keys) \<Rightarrow>
          (case first_key d keys of
             None \<Rightarrow> []
           | Some k \<Rightarrow> [make_ref cat (str_of (input_value d k))]))"

definition inputs_dict :: "(string \<times> json) list \<Rightarrow> (string \<times> json) list" where
  "inputs_dict kvs = (case map_of kvs ''inputs'' of Some (JDict d) \<Rightarrow> d | _ \<Rightarrow> [])"

definition node_refs :: "json \<Rightarrow> model_ref list" where
  "node_refs node_data =
     (case node_data of
        JDict kvs \<Rightarrow>
          (case map_of kvs ''class_type'' of
             Some (JStr ct) \<Rightarrow>
               (case map_of MODEL_LOADERS ct of
                  Some (cat, ik) \<Rightarrow> table_refs cat (key_list ik) (inputs_dict kvs)
                | None \<Rightarrow>
                    if sublist ''Loader'' ct then pattern_refs ct (inputs_dict kvs) else [])
           | _ \<Rightarrow> [])
      | _ \<Rightarrow> [])"

definition inputs_of :: "(string \<times> json) list \<Rightarrow> json" where
  "inputs_of kvs = (case map_of kvs ''inputs'' of None \<Rightarrow> JDict [] | Some v \<Rightarrow> v)"

section \<open>The usage document\<close>

text \<open>
  A calendar date is carried as its proleptic Gregorian ordinal (\<open>date.toordinal()\<close>, day 1
  is 0001-01-01, the last representable day 9999-12-31 is 3652059). The source keeps dates as
  the strings \<open>date.isoformat()\<close> gives (\<open>YYYY-MM-DD\<close>, zero padded) and compares them as
  strings; on that format string equality and string order are equality and order of the
  days. A timestamp (\<open>datetime.isoformat() + "Z"\<close>) stays a string: it is stored, returned
  and compared as one.
\<close>

type_synonym date = int

text \<open>One reading of \<open>datetime.utcnow()\<close>: its ISO rendering and the ordinal of its date.\<close>

record instant =
  isoformat :: string
  day :: date

definition now_iso :: "instant \<Rightarrow> string" where
  "now_iso now = isoformat now @ ''Z''"

definition MAXORDINAL :: int where
  "MAXORDINAL = 3652059"

text \<open>
  \<open>d - timedelta(days=n)\<close>: the constructor refuses more than 999999999 days, the
  subtraction refuses a result outside 0001-01-01 .. 9999-12-31; both raise
  \<open>OverflowError\<close>.
\<close>

definition date_minus_days :: "date \<Rightarrow> int \<Rightarrow> py_error + date" where
  "date_minus_days d n =
     (if \<bar>n\<bar> > 999999999 then Inl OverflowError
      else if 0 < d - n \<and> d - n \<le> MAXORDINAL then Inr (d - n)
      else Inl OverflowError)"

record usage_entry =
  date :: date
  count :: int

text \<open>
  A model record; \<open>rec_category\<close> and \<open>rec_name\<close> are its keys \<open>"category"\<close> and
  \<open>"name"\<close>.
\<close>

record model_data =
  rec_category :: string
  rec_name :: string
  path :: string
  first_used :: string
  last_used :: string
  usage_count :: int
  usage_log :: "usage_entry list"

record metadata_rec =
  tracking_started :: string
  last_updated :: string

text \<open>The root document; \<open>models\<close> is a dict, kept in insertion order.\<close>

record usage_db =
  version :: int
  models :: "(string \<times> model_data) list"
  metadata :: metadata_rec

definition SCHEMA_VERSION :: int where
  "SCHEMA_VERSION = 1"

text \<open>\<open>create_empty_data\<close>, with the clock reading it takes.\<close>

definition create_empty_data :: "instant \<Rightarrow> usage_db" where
  "create_empty_data now =
     \<lparr>version = SCHEMA_VERSION, models = [],
      metadata = \<lparr>tracking_started = now_iso now, last_updated = now_iso now\<rparr>\<rparr>"

text \<open>
  What \<open>save_data\<close> does to the document it is given: it stamps \<open>last_updated\<close> with its own
  reading of the clock. (Writing the file is in the section on storage.)
\<close>

definition stamp_last_updated :: "usage_db \<Rightarrow> instant \<Rightarrow> usage_db" where
  "stamp_last_updated data saved = data\<lparr>metadata := (metadata data)\<lparr>last_updated := now_iso saved\<rparr>\<rparr>"

section \<open>tracking.py: recording\<close>

text \<open>The record created for an identifier that is not in \<open>models\<close> yet.\<close>

definition new_model_data :: "model_ref \<Rightarrow> instant \<Rightarrow> model_data" where
  "new_model_data model now =
     \<lparr>rec_category = category model, rec_name = name model, path = model_id model,
      first_used = now_iso now, last_used = now_iso now, usage_count = 0, usage_log = []\<rparr>"

text \<open>
  The daily log: \<open>if usage_log and usage_log[-1]["date"] == today\<close> the last entry is
  incremented in place, otherwise an entry with count 1 is appended.
\<close>

definition update_log :: "usage_entry list \<Rightarrow> date \<Rightarrow> usage_entry list" where
  "update_log log today =
     (if log \<noteq> [] \<and> date (last log) = today
      then butlast log @ [(last log)\<lparr>count := count (last log) + 1\<rparr>]
      else log @ [\<lparr>date = today, count = 1\<rparr>])"

definition touch :: "model_data \<Rightarrow> instant \<Rightarrow> model_data" where
  "touch md now =
     md\<lparr>last_used := now_iso now, usage_count := usage_count md + 1,
        usage_log := update_log (usage_log md) (day now)\<rparr>"

text \<open>
  One pass of the loop of \<open>record_usage\<close> on the dict \<open>models\<close>. A new key goes to the end
  of the dict, an existing key keeps its place (\<open>AList.update\<close> does both).
\<close>

definition record_model :: "(string \<times> model_data) list \<Rightarrow> instant \<Rightarrow> model_ref \<Rightarrow> (string \<times> model_data) list" where
  "record_model ms now model =
     (let ms' = (if map_of ms (model_id model) = None
                 then AList.update (model_id model) (new_model_data model now) ms
                 else ms)
      in case map_of ms' (model_id model) of
           None \<Rightarrow> ms'
         | Some md \<Rightarrow> AList.update (model_id model) (touch md now) ms')"

fun record_loop :: "(string \<times> model_data) list \<Rightarrow> instant \<Rightarrow> model_ref list \<Rightarrow> (string \<times> model_data) list" where
  "record_loop ms now [] = ms"
| "record_loop ms now (model # rest) = record_loop (record_model ms now model) now rest"

text \<open>
  \<open>record_usage\<close>: nothing happens for an empty list; otherwise the loop runs with one
  reading \<open>now\<close> and \<open>_save\<close> stamps the document at its own reading \<open>saved\<close>.
\<close>

definition record_usage :: "usage_db \<Rightarrow> model_ref list \<Rightarrow> instant \<Rightarrow> instant \<Rightarrow> usage_db" where
  "record_usage data ms now saved =
     (if ms = [] then data
      else stamp_last_updated (data\<lparr>models := record_loop (models data) now ms\<rparr>) saved)"

text \<open>A sequence of calls: the list passed, the reading of the call, the reading of its save.\<close>

fun record_calls :: "usage_db \<Rightarrow> (model_ref list \<times> instant \<times> instant) list \<Rightarrow> usage_db" where
  "record_calls data [] = data"
| "record_calls data ((ms, now, saved) # calls) = record_calls (record_usage data ms now saved) calls"

text \<open>
  How often an identifier appears across the lists of a sequence of calls, and the calls
  whose list contains it.
\<close>

definition appearances :: "(model_ref list \<times> instant \<times> instant) list \<Rightarrow> string \<Rightarrow> nat" where
  "appearances calls mid = count_list (concat (map (\<lambda>(ms, now, saved). map model_id ms) calls)) mid"

definition calls_with :: "(model_ref list \<times> instant \<times> instant) list \<Rightarrow> string \<Rightarrow> (model_ref list \<times> instant \<times> instant) list" where
  "calls_with calls mid = filter (\<lambda>(ms, now, saved). mid \<in> set (map model_id ms)) calls"

definition call_day :: "(model_ref list \<times> instant \<times> instant) \<Rightarrow> date" where
  "call_day c = day (fst (snd c))"

text \<open>The total of a model (0 when it has no record), and the shape of a daily log.\<close>

definition count_of :: "(string \<times> model_data) list \<Rightarrow> string \<Rightarrow> int" where
  "count_of ms mid = (case map_of ms mid of None \<Rightarrow> 0 | Some md \<Rightarrow> usage_count md)"

text \<open>
  A daily log in order up to a day \<open>t\<close>: dates strictly ascending, none after \<open>t\<close>.
\<close>

definition log_ordered :: "date \<Rightarrow> usage_entry list \<Rightarrow> bool" where
  "log_ordered t log = (sorted_wrt (<) (map date log) \<and> (\<forall>e \<in> set log. date e \<le> t))"

section \<open>tracking.py: queries\<close>

text \<open>
  The cutoff of \<open>get_usage_data\<close>: \<open>now - timedelta(days=7)\<close> for \<open>"week"\<close>,
  \<open>now - timedelta(days=30)\<close> for \<open>"month"\<close>, \<open>None\<close> for every other value; then its date.
\<close>

definition timeframe_cutoff :: "string \<Rightarrow> instant \<Rightarrow> py_error + date option" where
  "timeframe_cutoff timeframe now =
     (if timeframe = ''week'' then
        (case date_minus_days (day now) 7 of Inl e \<Rightarrow> Inl e | Inr c \<Rightarrow> Inr (Some c))
      else if timeframe = ''month'' then
        (case date_minus_days (day now) 30 of Inl e \<Rightarrow> Inl e | Inr c \<Rightarrow> Inr (Some c))
      else Inr None)"

text \<open>
  \<open>sum(entry["count"] for entry in usage_log if entry["date"] >= cutoff_date)\<close> when there
  is a cutoff, the total \<open>usage_count\<close> otherwise.
\<close>

definition timeframe_count_of :: "date option \<Rightarrow> model_data \<Rightarrow> int" where
  "timeframe_count_of cutoff_date md =
     (case cutoff_date of
        Some c \<Rightarrow> sum_list (map count (filter (\<lambda>entry. c \<le> date entry) (usage_log md)))
      | None \<Rightarrow> usage_count md)"

text \<open>The dict appended to \<open>models_list\<close> for one model.\<close>

record summary =
  s_model_id :: string
  s_category :: string
  s_name :: string
  s_first_used :: string
  s_last_used :: string
  s_usage_count :: int
  timeframe_count :: int

definition make_summary :: "string \<Rightarrow> model_data \<Rightarrow> int \<Rightarrow> summary" where
  "make_summary mid md n =
     \<lparr>s_model_id = mid, s_category = rec_category md, s_name = rec_name md,
      s_first_used = first_used md, s_last_used = last_used md,
      s_usage_count = usage_count md, timeframe_count = n\<rparr>"

text \<open>
  \<open>if category and model_data["category"] != category: continue\<close>: no filter for \<open>None\<close>
  and for the empty string.
\<close>

definition category_passes :: "string option \<Rightarrow> model_data \<Rightarrow> bool" where
  "category_passes cat md =
     (case cat of None \<Rightarrow> True | Some c \<Rightarrow> c = [] \<or> rec_category md = c)"

text \<open>
  \<open>list.sort\<close> is stable; with \<open>reverse=True\<close> it reverses the list, sorts it stably and
  reverses it again. Strings compare by code point.
\<close>

definition sort_models :: "string \<Rightarrow> summary list \<Rightarrow> summary list" where
  "sort_models sort_by xs =
     (if sort_by = ''usage_count'' then rev (sort_key timeframe_count (rev xs))
      else if sort_by = ''name'' then sort_key (\<lambda>x. lower (s_name x)) xs
      else rev (sort_key s_last_used (rev xs)))"

record query_result =
  q_models :: "summary list"
  q_metadata :: metadata_rec
  q_timeframe :: string
  q_sort_by :: string

definition get_usage_data :: "usage_db \<Rightarrow> string \<Rightarrow> string \<Rightarrow> string option \<Rightarrow> instant \<Rightarrow> py_error + query_result" where
  "get_usage_data data timeframe sort_by cat now =
     (case timeframe_cutoff timeframe now of
        Inl e \<Rightarrow> Inl e
      | Inr cutoff_date \<Rightarrow>
          Inr \<lparr>q_models =
                 sort_models sort_by
                   (map (\<lambda>(mid, md). make_summary mid md (timeframe_count_of cutoff_date md))
                      (filter (\<lambda>(mid, md). category_passes cat md) (models data))),
               q_metadata = metadata data, q_timeframe = timeframe, q_sort_by = sort_by\<rparr>)"

text \<open>
  The count the query is to report, in the words of its description: entries on or after
  today minus 7 days for \<open>"week"\<close>, minus 30 days for \<open>"month"\<close>, the lifetime total
  otherwise.
\<close>

definition windowed_count :: "string \<Rightarrow> date \<Rightarrow> model_data \<Rightarrow> int" where
  "windowed_count timeframe today md =
     (if timeframe = ''week''
      then (\<Sum>e \<leftarrow> filter (\<lambda>e. today - 7 \<le> date e) (usage_log md). count e)
      else if timeframe = ''month''
      then (\<Sum>e \<leftarrow> filter (\<lambda>e. today - 30 \<le> date e) (usage_log md). count e)
      else usage_count md)"

section \<open>storage.py: retention\<close>

text \<open>
  \<open>cleanup_old_usage_logs\<close>: the cutoff is computed first (and may raise), then every log is
  filtered in place, in the order of the dict.
\<close>

definition cleanup_old_usage_logs :: "usage_db \<Rightarrow> int \<Rightarrow> instant \<Rightarrow> py_error + usage_db" where
  "cleanup_old_usage_logs data max_days now =
     (case date_minus_days (day now) max_days of
        Inl e \<Rightarrow> Inl e
      | Inr cutoff \<Rightarrow>
          Inr (data\<lparr>models :=
                 map (\<lambda>(mid, md).
                        (mid, md\<lparr>usage_log := filter (\<lambda>entry. cutoff \<le> date entry) (usage_log md)\<rparr>))
                   (models data)\<rparr>))"

text \<open>The fields of a model record other than its log.\<close>

definition same_but_log :: "model_data \<Rightarrow> model_data \<Rightarrow> bool" where
  "same_but_log md' md =
     (rec_category md' = rec_category md \<and> rec_name md' = rec_name md \<and> path md' = path md
      \<and> first_used md' = first_used md \<and> last_used md' = last_used md
      \<and> usage_count md' = usage_count md)"

section \<open>storage.py: the file and its migration\<close>

text \<open>
  What \<open>json.load\<close> makes of the bytes of a file: bytes that are not UTF-8 (reading them
  raises \<open>UnicodeDecodeError\<close>), text that is not JSON (\<open>JSONDecodeError\<close>), or a JSON value.
  The files the storage layer touches: the usage file, the pre-migration backup
  (\<open>.backup.json\<close>) and the files renamed aside (\<open>.corrupted_<timestamp>.json\<close>), by
  their timestamp. Lock acquisition and failing disk operations are outside the model: no
  other process holds the lock and every write succeeds. Every function that reads the clock
  takes its reading as an argument; the readings \<open>migrate_to_v1\<close> takes while it runs are
  the one reading passed to it.
\<close>

datatype file_content = Undecodable | Malformed | Json json

record files =
  storage_file :: "file_content option"
  backup_file :: "json option"
  corrupted_files :: "(string \<times> file_content) list"

definition json_load :: "file_content \<Rightarrow> py_error + json" where
  "json_load c =
     (case c of
        Undecodable \<Rightarrow> Inl UnicodeDecodeError
      | Malformed \<Rightarrow> Inl JSONDecodeError
      | Json j \<Rightarrow> Inr j)"

text \<open>
  \<open>strftime("%Y%m%d_%H%M%S")\<close>, read off the ISO rendering \<open>YYYY-MM-DDTHH:MM:SS[.ffffff]\<close>.
\<close>

definition strftime_compact :: "instant \<Rightarrow> string" where
  "strftime_compact now =
     map (\<lambda>c. if c = CHR ''T'' then CHR ''_'' else c)
       (filter (\<lambda>c. c \<noteq> CHR ''-'' \<and> c \<noteq> CHR '':'') (take 19 (isoformat now)))"

text \<open>
  \<open>obj[key]\<close> and \<open>obj[key] = value\<close> with a string key: a dict only; a missing key is a
  \<open>KeyError\<close>, any other object a \<open>TypeError\<close>.
\<close>

definition get_item :: "json \<Rightarrow> string \<Rightarrow> py_error + json" where
  "get_item obj key =
     (case obj of
        JDict kvs \<Rightarrow> (case map_of kvs key of Some v \<Rightarrow> Inr v | None \<Rightarrow> Inl KeyError)
      | _ \<Rightarrow> Inl TypeError)"

definition set_item :: "json \<Rightarrow> string \<Rightarrow> json \<Rightarrow> py_error + json" where
  "set_item obj key v =
     (case obj of
        JDict kvs \<Rightarrow> Inr (JDict (AList.update key v kvs))
      | _ \<Rightarrow> Inl TypeError)"

text \<open>
  A JSON number against an integer: \<open>x == n\<close> is false for anything that is not a number
  (\<open>True\<close> is 1, \<open>False\<close> is 0), \<open>x < n\<close> raises \<open>TypeError\<close> for it. A float is
  \<open>m * 2 ^ e\<close>.
\<close>

definition float_eq_int :: "int \<Rightarrow> int \<Rightarrow> int \<Rightarrow> bool" where
  "float_eq_int m e n = (if 0 \<le> e then m * 2 ^ nat e = n else m = n * 2 ^ nat (- e))"

definition float_lt_int :: "int \<Rightarrow> int \<Rightarrow> int \<Rightarrow> bool" where
  "float_lt_int m e n = (if 0 \<le> e then m * 2 ^ nat e < n else m < n * 2 ^ nat (- e))"

definition py_eq_int :: "json \<Rightarrow> int \<Rightarrow> bool" where
  "py_eq_int x n =
     (case x of
        JInt v \<Rightarrow> v = n
      | JBool b \<Rightarrow> (if b then 1 else 0) = n
      | JFloat m e \<Rightarrow> float_eq_int m e n
      | _ \<Rightarrow> False)"

definition py_lt_int :: "json \<Rightarrow> int \<Rightarrow> py_error + bool" where
  "py_lt_int x n =
     (case x of
        JInt v \<Rightarrow> Inr (v < n)
      | JBool b \<Rightarrow> Inr ((if b then 1 else 0) < n)
      | JFloat m e \<Rightarrow> Inr (float_lt_int m e n)
      | _ \<Rightarrow> Inl TypeError)"

text \<open>\<open>create_empty_data\<close> as the dict it returns.\<close>

definition create_empty_data_json :: "instant \<Rightarrow> json" where
  "create_empty_data_json now =
     JDict [(''version'', JInt SCHEMA_VERSION),
            (''models'', JDict []),
            (''metadata'', JDict [(''tracking_started'', JStr (now_iso now)),
                                  (''last_updated'', JStr (now_iso now))])]"

text \<open>
  \<open>save_data\<close>: \<open>data["metadata"]["last_updated"] = ...\<close> on the caller's dict, then the
  file is replaced by the dump of it. The result is the files and either the exception or
  the dict as the caller sees it afterwards.
\<close>

definition save_data :: "files \<Rightarrow> json \<Rightarrow> instant \<Rightarrow> files \<times> (py_error + json)" where
  "save_data fs data now =
     (case get_item data ''metadata'' of
        Inl e \<Rightarrow> (fs, Inl e)
      | Inr md \<Rightarrow>
     (case set_item md ''last_updated'' (JStr (now_iso now)) of
        Inl e \<Rightarrow> (fs, Inl e)
      | Inr md' \<Rightarrow>
     (case set_item data ''metadata'' md' of
        Inl e \<Rightarrow> (fs, Inl e)
      | Inr data' \<Rightarrow> (fs\<lparr>storage_file := Some (Json data')\<rparr>, Inr data'))))"

text \<open>
  \<open>migrate_to_v1\<close>, the body of its loop for one model first: a missing \<open>usage_log\<close>
  becomes \<open>[]\<close>, a missing \<open>first_used\<close> the value of \<open>last_used\<close> or the current time.
  (\<open>key not in obj\<close> is \<open>str_in\<close> of the extraction.)
\<close>

definition migrate_model :: "json \<Rightarrow> instant \<Rightarrow> py_error + json" where
  "migrate_model model_data now =
     (case str_in ''usage_log'' model_data of
        Inl e \<Rightarrow> Inl e
      | Inr has_log \<Rightarrow>
     (case (if has_log then Inr model_data else set_item model_data ''usage_log'' (JList [])) of
        Inl e \<Rightarrow> Inl e
      | Inr md \<Rightarrow>
     (case str_in ''first_used'' md of
        Inl e \<Rightarrow> Inl e
      | Inr has_first \<Rightarrow>
          if has_first then Inr md
          else (case dict_get md ''last_used'' (JStr (now_iso now)) of
                  Inl e \<Rightarrow> Inl e
                | Inr v \<Rightarrow> set_item md ''first_used'' v))))"

fun migrate_models :: "(string \<times> json) list \<Rightarrow> instant \<Rightarrow> py_error + (string \<times> json) list" where
  "migrate_models [] now = Inr []"
| "migrate_models ((mid, model_data) # rest) now =
     (case migrate_model model_data now of
        Inl e \<Rightarrow> Inl e
      | Inr md \<Rightarrow>
          (case migrate_models rest now of
             Inl e \<Rightarrow> Inl e
           | Inr rest' \<Rightarrow> Inr ((mid, md) # rest')))"

text \<open>\<open>.items()\<close> exists for a dict only.\<close>

definition migrate_to_v1 :: "json \<Rightarrow> instant \<Rightarrow> py_error + json" where
  "migrate_to_v1 data now =
     (case str_in ''models'' data of
        Inl e \<Rightarrow> Inl e
      | Inr has_models \<Rightarrow>
     (case (if has_models then Inr data else set_item data ''models'' (JDict [])) of
        Inl e \<Rightarrow> Inl e
      | Inr d1 \<Rightarrow>
     (case str_in ''metadata'' d1 of
        Inl e \<Rightarrow> Inl e
      | Inr has_meta \<Rightarrow>
     (case (if has_meta then Inr d1
            else set_item d1 ''metadata''
                   (JDict [(''tracking_started'', JStr (now_iso now)),
                           (''last_updated'', JStr (now_iso now))])) of
        Inl e \<Rightarrow> Inl e
      | Inr d2 \<Rightarrow>
     (case dict_get d2 ''models'' (JDict []) of
        Inl e \<Rightarrow> Inl e
      | Inr (JDict ms) \<Rightarrow>
          (case migrate_models ms now of
             Inl e \<Rightarrow> Inl e
           | Inr ms' \<Rightarrow> set_item d2 ''models'' (JDict ms'))
      | Inr _ \<Rightarrow> Inl AttributeError)))))"

text \<open>
  \<open>migrate_schema\<close>: a document whose version equals the current one is returned as it is;
  any other is backed up first, transformed when its version is below 1, and stamped.
\<close>

definition migrate_schema :: "files \<Rightarrow> json \<Rightarrow> instant \<Rightarrow> files \<times> (py_error + json)" where
  "migrate_schema fs data now =
     (case dict_get data ''version'' (JInt 0) of
        Inl e \<Rightarrow> (fs, Inl e)
      | Inr current_version \<Rightarrow>
          if py_eq_int current_version SCHEMA_VERSION then (fs, Inr data)
          else
            (let fs' = fs\<lparr>backup_file := Some data\<rparr> in
             case py_lt_int current_version 1 of
               Inl e \<Rightarrow> (fs', Inl e)
             | Inr below \<Rightarrow>
                 (case (if below then migrate_to_v1 data now else Inr data) of
                    Inl e \<Rightarrow> (fs', Inl e)
                  | Inr d \<Rightarrow> (fs', set_item d ''version'' (JInt SCHEMA_VERSION)))))"

text \<open>\<open>backup_corrupted_file\<close>: the file, when it exists, is renamed aside.\<close>

definition backup_corrupted_file :: "files \<Rightarrow> instant \<Rightarrow> files" where
  "backup_corrupted_file fs now =
     (case storage_file fs of
        None \<Rightarrow> fs
      | Some c \<Rightarrow>
          fs\<lparr>storage_file := None,
             corrupted_files := AList.update (strftime_compact now) c (corrupted_files fs)\<rparr>)"

text \<open>
  \<open>load_data\<close>. The handler \<open>except (json.JSONDecodeError, KeyError)\<close> takes these two
  exceptions of the \<open>try\<close> block and no other.
\<close>

definition handled :: "py_error \<Rightarrow> bool" where
  "handled e = (e = JSONDecodeError \<or> e = KeyError)"

definition recover :: "files \<Rightarrow> instant \<Rightarrow> instant \<Rightarrow> instant \<Rightarrow> files \<times> (py_error + json)" where
  "recover fs renamed created saved =
     save_data (backup_corrupted_file fs renamed) (create_empty_data_json created) saved"

text \<open>
  The readings are those of \<open>migrate_schema\<close>, \<open>backup_corrupted_file\<close>,
  \<open>create_empty_data\<close> and \<open>save_data\<close>.
\<close>

definition load_data ::
  "files \<Rightarrow> instant \<Rightarrow> instant \<Rightarrow> instant \<Rightarrow> instant \<Rightarrow> files \<times> (py_error + json)" where
  "load_data fs migrated renamed created saved =
     (case storage_file fs of
        None \<Rightarrow> save_data fs (create_empty_data_json created) saved
      | Some content \<Rightarrow>
          (case json_load content of
             Inl e \<Rightarrow> if handled e then recover fs renamed created saved else (fs, Inl e)
           | Inr data \<Rightarrow>
               (case migrate_schema fs data migrated of
                  (fs', Inl e) \<Rightarrow>
                    if handled e then recover fs' renamed created saved else (fs', Inl e)
                | (fs', Inr d) \<Rightarrow> (fs', Inr d))))"

text \<open>
  The shape under which the transformation to version 1 does not raise: \<open>models\<close>, when
  present, is a dict whose values are dicts.
\<close>

definition models_well_shaped :: "(string \<times> json) list \<Rightarrow> bool" where
  "models_well_shaped kvs =
     (case map_of kvs ''models'' of
        None \<Rightarrow> True
      | Some (JDict ms) \<Rightarrow> list_all (\<lambda>p. is_dict (snd p)) ms
      | Some _ \<Rightarrow> False)"


section \<open>Properties of the extraction\<close>

lemma dict_get_JDict: "dict_get (JDict d) k dflt = Inr (case map_of d k of Some v \<Rightarrow> v | None \<Rightarrow> dflt)"
  by (simp add: dict_get_def split: option.splits)

lemma keys_scan_dict:
  "keys_scan cat keys (JDict d) =
     Inr (case first_key d keys of None \<Rightarrow> [] | Some k \<Rightarrow> [make_ref cat (str_of (input_value d k))])"
  by (induction keys) (simp_all add: first_key_def dict_get_JDict input_value_def)

lemma patterns_scan_dict:
  "patterns_scan pats ct (JDict d) =
     Inr (case first_pattern pats ct of
            None \<Rightarrow> []
          | Some (pattern, cat, keys) \<Rightarrow>
              (case first_key d keys of
                 None \<Rightarrow> []
               | Some k \<Rightarrow> [make_ref cat (str_of (input_value d k))]))"
  by (induction pats) (auto simp: first_pattern_def keys_scan_dict)

lemma add_unseen_eq:
  "add_unseen xs (acc, seen) =
     (acc @ dedup_by_id (filter (\<lambda>x. model_id x \<notin> seen) xs), seen \<union> set (map model_id xs))"
proof (induction xs arbitrary: acc seen)
  case Nil
  show ?case by simp
next
  case (Cons m ms)
  have f: "(\<lambda>x. model_id x \<noteq> model_id m \<and> model_id x \<notin> seen) =
           (\<lambda>x. model_id x \<notin> seen \<and> model_id x \<noteq> model_id m)"
    by auto
  show ?case
    by (auto simp: Cons.IH f)
qed

lemma add_unseen_append:
  "add_unseen (xs @ ys) (acc, seen) = add_unseen ys (add_unseen xs (acc, seen))"
  by (induction xs arbitrary: acc seen) auto

lemma prompt_loop_eq:
  "prompt_loop nodes (acc, seen) =
     (case all_extracted nodes of
        Inl e \<Rightarrow> Inl e
      | Inr xs \<Rightarrow> Inr (fst (add_unseen xs (acc, seen))))"
proof (induction nodes arbitrary: acc seen)
  case Nil
  show ?case by simp
next
  case (Cons n nodes)
  obtain node_id node_data where n: "n = (node_id, node_data)" by (cases n)
  show ?case
  proof (cases "node_models node_data")
    case (Inl e)
    then show ?thesis by (simp add: n)
  next
    case (Inr ex)
    obtain models' seen' where st: "add_unseen ex (acc, seen) = (models', seen')"
      by (cases "add_unseen ex (acc, seen)")
    show ?thesis
      by (simp add: n Inr st Cons.IH add_unseen_append split: sum.splits)
  qed
qed

lemma dedup_by_id_ids: "set (map model_id (dedup_by_id xs)) = set (map model_id xs)"
  by (induction xs rule: dedup_by_id.induct) auto

lemma dedup_by_id_subset: "set (dedup_by_id xs) \<subseteq> set xs"
proof (induction xs rule: dedup_by_id.induct)
  case 1
  show ?case by simp
next
  case (2 m ms)
  have "set (filter (\<lambda>x. model_id x \<noteq> model_id m) ms) \<subseteq> set ms" by simp
  with 2 show ?case by auto
qed

lemma dedup_by_id_distinct: "distinct (map model_id (dedup_by_id xs))"
proof (induction xs rule: dedup_by_id.induct)
  case 1
  show ?case by simp
next
  case (2 m ms)
  have "set (dedup_by_id (filter (\<lambda>x. model_id x \<noteq> model_id m) ms))
          \<subseteq> set (filter (\<lambda>x. model_id x \<noteq> model_id m) ms)"
    by (rule dedup_by_id_subset)
  then have "model_id m \<notin> model_id ` set (dedup_by_id (filter (\<lambda>x. model_id x \<noteq> model_id m) ms))"
    by auto
  with 2 show ?case by simp
qed

lemma extract_eq:
  "extract_models_from_prompt prompt =
     (case all_extracted prompt of Inl e \<Rightarrow> Inl e | Inr xs \<Rightarrow> Inr (dedup_by_id xs))"
  by (simp add: extract_models_from_prompt_def prompt_loop_eq add_unseen_eq split: sum.splits)


lemma eval_lookup:
  "loader_lookup (JStr ''CheckpointLoaderSimple'') = Inr (Some (''checkpoint'', OneKey ''ckpt_name''))"
  "loader_lookup (JStr ''CheckpointLoader'') = Inr (Some (''checkpoint'', OneKey ''ckpt_name''))"
  "loader_lookup (JStr ''LoraLoader'') = Inr (Some (''lora'', OneKey ''lora_name''))"
  by (simp_all add: loader_lookup_def MODEL_LOADERS_def)



text \<open>
  Claim C3. For every workflow graph, \<open>extract_models_from_prompt\<close> returns the references
  of all nodes, taken in node-visitation order, with every later occurrence of an
  already-seen identifier dropped and no reordering; the identifiers of the returned list are
  pairwise distinct. When a node raises, the first such exception is the outcome. The result
  is a function of the graph alone (the method reads no state), so two calls on the same graph
  return the same list.
\<close>

theorem extract_dedup_in_visit_order:
  "extract_models_from_prompt prompt =
     (case all_extracted prompt of Inl e \<Rightarrow> Inl e | Inr xs \<Rightarrow> Inr (dedup_by_id xs))
   \<and> (\<forall>ms. extract_models_from_prompt prompt = Inr ms \<longrightarrow> distinct (map model_id ms))"
  by (auto simp: extract_eq dedup_by_id_distinct split: sum.splits)

theorem extract_dedup_in_visit_order_witness:
  "extract_models_from_prompt
     [(''1'', JDict [(''class_type'', JStr ''CheckpointLoaderSimple''),
                     (''inputs'', JDict [(''ckpt_name'', JStr ''a'')])]),
      (''2'', JDict [(''class_type'', JStr ''LoraLoader''),
                     (''inputs'', JDict [(''lora_name'', JStr ''l'')])]),
      (''3'', JDict [(''class_type'', JStr ''CheckpointLoader''),
                     (''inputs'', JDict [(''ckpt_name'', JStr ''a'')])])]
   = Inr [\<lparr>category = ''checkpoint'', name = ''a'', model_id = ''checkpoint/a''\<rparr>,
          \<lparr>category = ''lora'', name = ''l'', model_id = ''lora/l''\<rparr>]
   \<and> distinct (map model_id
        [\<lparr>category = ''checkpoint'', name = ''a'', model_id = ''checkpoint/a''\<rparr>,
         \<lparr>category = ''lora'', name = ''l'', model_id = ''lora/l''\<rparr>])"
  using extract_dedup_in_visit_order
    [of "[(''1'', JDict [(''class_type'', JStr ''CheckpointLoaderSimple''),
                     (''inputs'', JDict [(''ckpt_name'', JStr ''a'')])]),
      (''2'', JDict [(''class_type'', JStr ''LoraLoader''),
                     (''inputs'', JDict [(''lora_name'', JStr ''l'')])]),
      (''3'', JDict [(''class_type'', JStr ''CheckpointLoader''),
                     (''inputs'', JDict [(''ckpt_name'', JStr ''a'')])])]"]
  by (simp add: node_models_def dict_get_def eval_lookup extract_from_inputs_def make_ref_def)

text \<open>
  Claim C4. A node whose type name is a key of the loader table is resolved through that
  table entry: the references of the node are exactly what \<open>_extract_from_inputs\<close> returns
  for the entry's category and keys, whatever patterns occur in the name. (For
  \<open>UnetLoaderGGUF\<close> the table gives category \<open>gguf\<close>, where the pattern \<open>UNET\<close> would have
  given \<open>unet\<close>.)
\<close>

theorem table_entry_precedes_patterns:
  assumes "map_of node ''class_type'' = Some (JStr ct)"
    and "map_of MODEL_LOADERS ct = Some (cat, keys)"
    and "dict_get (JDict node) ''inputs'' (JDict []) = Inr inputs"
  shows "node_models (JDict node) = extract_from_inputs cat keys inputs"
  using assms by (simp add: node_models_def dict_get_JDict loader_lookup_def)

theorem table_entry_precedes_patterns_witness:
  "node_models (JDict [(''class_type'', JStr ''UnetLoaderGGUF''),
                       (''inputs'', JDict [(''unet_name'', JStr ''m.gguf'')])])
     = Inr [\<lparr>category = ''gguf'', name = ''m.gguf'', model_id = ''gguf/m.gguf''\<rparr>]
   \<and> extract_from_patterns (JStr ''UnetLoaderGGUF'') (JDict [(''unet_name'', JStr ''m.gguf'')])
     = Inr [\<lparr>category = ''unet'', name = ''m.gguf'', model_id = ''unet/m.gguf''\<rparr>]"
proof -
  have a: "map_of [(''class_type'', JStr ''UnetLoaderGGUF''),
                   (''inputs'', JDict [(''unet_name'', JStr ''m.gguf'')])] ''class_type''
           = Some (JStr ''UnetLoaderGGUF'')"
    by simp
  have b: "map_of MODEL_LOADERS ''UnetLoaderGGUF'' = Some (''gguf'', OneKey ''unet_name'')"
    by (simp add: MODEL_LOADERS_def)
  have c: "dict_get (JDict [(''class_type'', JStr ''UnetLoaderGGUF''),
                   (''inputs'', JDict [(''unet_name'', JStr ''m.gguf'')])]) ''inputs'' (JDict [])
           = Inr (JDict [(''unet_name'', JStr ''m.gguf'')])"
    by (simp add: dict_get_def)
  have d: "extract_from_patterns (JStr ''UnetLoaderGGUF'') (JDict [(''unet_name'', JStr ''m.gguf'')])
     = Inr [\<lparr>category = ''unet'', name = ''m.gguf'', model_id = ''unet/m.gguf''\<rparr>]"
    by code_simp
  show ?thesis
    using table_entry_precedes_patterns [OF a b c] d
    by (simp add: extract_from_inputs_def dict_get_def make_ref_def)
qed

text \<open>
  Lowering: type names that differ only in the case of ASCII letters lower to the same text,
  and a pattern of the list that occurs in a type name as it is written also occurs after
  lowering both.
\<close>

lemma lower_same_up_to_case: "same_up_to_case a b \<Longrightarrow> lower a = lower b"
  by (simp add: same_up_to_case_def lower_def)

lemma lower_special_plain:
  "a \<noteq> CHR 0xE2 \<Longrightarrow> a \<noteq> CHR 0xC4 \<Longrightarrow> lower_special (a # s) = a # lower_special s"
proof (cases s)
  case Nil
  then show ?thesis by simp
next
  case (Cons b t)
  assume "a \<noteq> CHR 0xE2" "a \<noteq> CHR 0xC4"
  then show ?thesis using Cons by (cases t) simp_all
qed

lemma lower_special_plain_list:
  "list_all plain p \<Longrightarrow> lower_special (p @ s) = p @ lower_special s"
  by (induction p) (simp_all add: lower_special_plain plain_def)

lemma lower_special_split:
  "plain x \<Longrightarrow> lower_special (A @ x # R) = lower_special A @ x # lower_special R"
proof (induction A rule: lower_special.induct)
  case (1 a b c s)
  then show ?case by simp
next
  case (2 a b)
  then show ?case
    by (cases R) (auto simp: plain_def lower_special_plain)
qed (cases R; auto simp: plain_def lower_special_plain)+

lemma sublist_lower_special:
  assumes "list_all plain p" and "sublist p s"
  shows "sublist p (lower_special s)"
proof (cases p)
  case Nil
  then show ?thesis by simp
next
  case (Cons x q)
  from assms(2) obtain A B where s: "s = A @ p @ B" by (auto simp: sublist_def)
  from assms(1) Cons have x: "plain x" and q: "list_all plain q" by simp_all
  have "lower_special s = lower_special A @ x # lower_special (q @ B)"
    using lower_special_split [OF x, of A "q @ B"] by (simp add: s Cons)
  also have "\<dots> = lower_special A @ p @ lower_special B"
    by (simp add: lower_special_plain_list [OF q] Cons)
  finally show ?thesis by simp
qed

lemma sublist_lower:
  assumes "list_all plain (map lower_char p)" and "sublist p s"
  shows "sublist (lower p) (lower s)"
proof -
  from assms(2) obtain A B where "s = A @ p @ B" by (auto simp: sublist_def)
  then have "sublist (map lower_char p) (map lower_char s)" by simp
  then have "sublist (map lower_char p) (lower_special (map lower_char s))"
    using assms(1) by (rule sublist_lower_special [rotated])
  moreover have "lower p = map lower_char p"
    using lower_special_plain_list [OF assms(1), of "[]"] by (simp add: lower_def)
  ultimately show ?thesis by (simp add: lower_def)
qed

lemma patterns_plain:
  "(p, c, ks) \<in> set LOADER_PATTERNS \<Longrightarrow> list_all plain (map lower_char p)"
  by (auto simp: LOADER_PATTERNS_def plain_def lower_char_def)

lemma pattern_as_written_found:
  assumes "(p, c, ks) \<in> set LOADER_PATTERNS" and "sublist p ct"
  shows "first_pattern LOADER_PATTERNS ct \<noteq> None"
proof -
  have "sublist (lower p) (lower ct)"
    using sublist_lower [OF patterns_plain [OF assms(1)] assms(2)] .
  with assms(1) show ?thesis
    by (auto simp: first_pattern_def find_None_iff)
qed

text \<open>
  Claim C5. A node that takes the pattern-fallback path (type name not in the table, and
  containing \<open>Loader\<close>) with a dict of inputs yields: nothing when no pattern occurs in the
  lowered type name; otherwise, for the first such pattern of \<open>LOADER_PATTERNS\<close> only, the one
  reference built from the first candidate key whose value is a non-empty string, or nothing
  when no candidate key has one. So at most one reference comes from such a node. The match
  does not look at case: \<open>_extract_from_patterns\<close> returns the same for every type name that
  differs from this one only in the case of ASCII letters, and a pattern that occurs in the
  name as it is written is enough for some pattern to be found.
\<close>

theorem pattern_fallback_first_match:
  assumes "map_of node ''class_type'' = Some (JStr ct)"
    and "map_of MODEL_LOADERS ct = None"
    and "sublist ''Loader'' ct"
    and "dict_get (JDict node) ''inputs'' (JDict []) = Inr (JDict d)"
  shows "node_models (JDict node) =
           Inr (case first_pattern LOADER_PATTERNS ct of
                  None \<Rightarrow> []
                | Some (pattern, cat, keys) \<Rightarrow>
                    (case first_key d keys of
                       None \<Rightarrow> []
                     | Some k \<Rightarrow> [make_ref cat (str_of (input_value d k))]))
         \<and> (\<exists>ms. node_models (JDict node) = Inr ms \<and> length ms \<le> 1)
         \<and> (\<forall>ct'. same_up_to_case ct' ct \<longrightarrow>
               extract_from_patterns (JStr ct') (JDict d) =
               extract_from_patterns (JStr ct) (JDict d))
         \<and> (\<forall>(pattern, cat, keys) \<in> set LOADER_PATTERNS.
               sublist pattern ct \<longrightarrow> first_pattern LOADER_PATTERNS ct \<noteq> None)"
proof (intro conjI)
  show a: "node_models (JDict node) =
           Inr (case first_pattern LOADER_PATTERNS ct of
                  None \<Rightarrow> []
                | Some (pattern, cat, keys) \<Rightarrow>
                    (case first_key d keys of
                       None \<Rightarrow> []
                     | Some k \<Rightarrow> [make_ref cat (str_of (input_value d k))]))"
    using assms
    by (auto simp: node_models_def dict_get_JDict loader_lookup_def str_in_def
        extract_from_patterns_def patterns_scan_dict split: option.splits)
  show "\<exists>ms. node_models (JDict node) = Inr ms \<and> length ms \<le> 1"
    unfolding a by (simp split: option.splits)
  show "\<forall>ct'. same_up_to_case ct' ct \<longrightarrow>
          extract_from_patterns (JStr ct') (JDict d) =
          extract_from_patterns (JStr ct) (JDict d)"
  proof (intro allI impI)
    fix ct'
    assume "same_up_to_case ct' ct"
    then have "lower ct' = lower ct" by (rule lower_same_up_to_case)
    then have "first_pattern LOADER_PATTERNS ct' = first_pattern LOADER_PATTERNS ct"
      by (simp add: first_pattern_def)
    then show "extract_from_patterns (JStr ct') (JDict d) =
          extract_from_patterns (JStr ct) (JDict d)"
      by (simp add: extract_from_patterns_def patterns_scan_dict)
  qed
  show "\<forall>(pattern, cat, keys) \<in> set LOADER_PATTERNS.
          sublist pattern ct \<longrightarrow> first_pattern LOADER_PATTERNS ct \<noteq> None"
    using pattern_as_written_found by blast
qed

text \<open>
  In \<open>MyLoraCHECKPOINTLoader\<close> the pattern \<open>Lora\<close> occurs as written and \<open>Checkpoint\<close> only
  up to case; \<open>Checkpoint\<close> comes first in the list and decides. Its keys \<open>ckpt_name\<close>
  (absent) and \<open>checkpoint\<close> (empty) are passed over, \<open>model_name\<close> gives the reference, and
  \<open>lora_name\<close> is never read.
\<close>

theorem pattern_fallback_first_match_witness:
  "sublist ''Loader'' ''MyLoraCHECKPOINTLoader''
   \<and> node_models (JDict [(''class_type'', JStr ''MyLoraCHECKPOINTLoader''),
                       (''inputs'', JDict [(''lora_name'', JStr ''l''),
                                           (''checkpoint'', JStr []),
                                           (''model_name'', JStr ''m'')])])
     = Inr [\<lparr>category = ''checkpoint'', name = ''m'', model_id = ''checkpoint/m''\<rparr>]
   \<and> same_up_to_case ''myLORAcheckpointLOADER'' ''MyLoraCHECKPOINTLoader''
   \<and> extract_from_patterns (JStr ''myLORAcheckpointLOADER'')
         (JDict [(''lora_name'', JStr ''l''), (''checkpoint'', JStr []),
                 (''model_name'', JStr ''m'')])
     = Inr [\<lparr>category = ''checkpoint'', name = ''m'', model_id = ''checkpoint/m''\<rparr>]
   \<and> (''Lora'', ''lora'', [''lora_name'', ''lora'']) \<in> set LOADER_PATTERNS
   \<and> sublist ''Lora'' ''MyLoraCHECKPOINTLoader''
   \<and> first_pattern LOADER_PATTERNS ''MyLoraCHECKPOINTLoader''
     = Some (''Checkpoint'', ''checkpoint'', [''ckpt_name'', ''checkpoint'', ''model_name''])"
proof -
  let ?ct = "''MyLoraCHECKPOINTLoader''"
  let ?d = "[(''lora_name'', JStr ''l''), (''checkpoint'', JStr []), (''model_name'', JStr ''m'')]"
  let ?node = "[(''class_type'', JStr ?ct), (''inputs'', JDict ?d)]"
  have a: "map_of ?node ''class_type'' = Some (JStr ?ct)"
    by simp
  have b: "map_of MODEL_LOADERS ?ct = None"
    by (simp add: MODEL_LOADERS_def)
  have c: "sublist ''Loader'' ?ct"
    by code_simp
  have d: "dict_get (JDict ?node) ''inputs'' (JDict []) = Inr (JDict ?d)"
    by (simp add: dict_get_def)
  have e: "first_pattern LOADER_PATTERNS ?ct
           = Some (''Checkpoint'', ''checkpoint'', [''ckpt_name'', ''checkpoint'', ''model_name''])"
    by code_simp
  have f: "first_key ?d [''ckpt_name'', ''checkpoint'', ''model_name''] = Some ''model_name''"
    by (simp add: first_key_def input_value_def)
  have g: "same_up_to_case ''myLORAcheckpointLOADER'' ?ct"
    by code_simp
  have h: "(''Lora'', ''lora'', [''lora_name'', ''lora'']) \<in> set LOADER_PATTERNS"
    by (simp add: LOADER_PATTERNS_def)
  have i: "sublist ''Lora'' ?ct"
    by code_simp
  have j: "extract_from_patterns (JStr ?ct) (JDict ?d)
     = Inr [\<lparr>category = ''checkpoint'', name = ''m'', model_id = ''checkpoint/m''\<rparr>]"
    by code_simp
  note t = pattern_fallback_first_match [OF a b c d]
  from t have n: "node_models (JDict ?node)
     = Inr [\<lparr>category = ''checkpoint'', name = ''m'', model_id = ''checkpoint/m''\<rparr>]"
    by (simp add: e f input_value_def make_ref_def)
  from t g have x: "extract_from_patterns (JStr ''myLORAcheckpointLOADER'') (JDict ?d)
     = extract_from_patterns (JStr ?ct) (JDict ?d)"
    by blast
  show ?thesis
    using c n g x j h i e by simp
qed

text \<open>
  A type name spelt with U+212A KELVIN SIGN for the \<open>k\<close> of \<open>Checkpoint\<close> matches the pattern,
  as \<open>str.lower()\<close> has it: the node yields a reference, and raises when its \<open>inputs\<close> is
  not a dict.
\<close>

lemma kelvin_sign_type_name:
  "first_pattern LOADER_PATTERNS (''Chec'' @ [CHR 0xE2, CHR 0x84, CHR 0xAA] @ ''pointLoader'')
     = Some (''Checkpoint'', ''checkpoint'', [''ckpt_name'', ''checkpoint'', ''model_name''])
   \<and> node_models
       (JDict [(''class_type'', JStr (''Chec'' @ [CHR 0xE2, CHR 0x84, CHR 0xAA] @ ''pointLoader'')),
               (''inputs'', JDict [(''ckpt_name'', JStr ''m'')])])
     = Inr [\<lparr>category = ''checkpoint'', name = ''m'', model_id = ''checkpoint/m''\<rparr>]
   \<and> node_models
       (JDict [(''class_type'', JStr (''Chec'' @ [CHR 0xE2, CHR 0x84, CHR 0xAA] @ ''pointLoader'')),
               (''inputs'', JList [])])
     = Inl AttributeError
   \<and> \<not> node_ok
       (JDict [(''class_type'', JStr (''Chec'' @ [CHR 0xE2, CHR 0x84, CHR 0xAA] @ ''pointLoader'')),
               (''inputs'', JList [])])"
  by code_simp


lemma inputs_loop_dict:
  "inputs_loop cat keys (JDict d) acc = Inr (acc @ table_refs cat keys d)"
  by (induction keys arbitrary: acc)
     (simp_all add: table_refs_def dict_get_JDict input_value_def)

lemma dict_get_non_dict: "\<not> is_dict v \<Longrightarrow> dict_get v k dflt = Inl AttributeError"
  by (cases v) (simp_all add: dict_get_def)

lemma inputs_loop_non_dict:
  "\<not> is_dict v \<Longrightarrow> keys \<noteq> [] \<Longrightarrow> inputs_loop cat keys v acc = Inl AttributeError"
  by (cases keys) (simp_all add: dict_get_non_dict)

lemma keys_scan_non_dict:
  "\<not> is_dict v \<Longrightarrow> keys \<noteq> [] \<Longrightarrow> keys_scan cat keys v = Inl AttributeError"
  by (cases keys) (simp_all add: dict_get_non_dict)

lemma patterns_scan_none:
  "first_pattern pats ct = None \<Longrightarrow> patterns_scan pats ct v = Inr []"
  by (induction pats) (auto simp: first_pattern_def split: if_splits)

lemma patterns_scan_some:
  "first_pattern pats ct = Some (p, c, ks) \<Longrightarrow> patterns_scan pats ct v = keys_scan c ks v"
  by (induction pats) (auto simp: first_pattern_def split: if_splits)

lemma find_Some_mem: "find P xs = Some x \<Longrightarrow> x \<in> set xs"
  by (induction xs) (auto split: if_splits)

lemma table_keys_nonempty:
  assumes "map_of MODEL_LOADERS ct = Some (cat, ik)"
  shows "key_list ik \<noteq> []"
proof -
  have "(ct, cat, ik) \<in> set MODEL_LOADERS"
    using assms by (rule map_of_SomeD)
  moreover have "\<forall>(k, c, i) \<in> set MODEL_LOADERS. key_list i \<noteq> []"
    by (simp add: MODEL_LOADERS_def)
  ultimately show ?thesis by blast
qed

lemma pattern_keys_nonempty:
  "first_pattern LOADER_PATTERNS ct = Some (p, c, ks) \<Longrightarrow> ks \<noteq> []"
  unfolding first_pattern_def
  by (drule find_Some_mem) (auto simp: LOADER_PATTERNS_def)


lemma node_models_str:
  "map_of kvs ''class_type'' = Some (JStr ct) \<Longrightarrow>
   node_models (JDict kvs) =
     (case map_of MODEL_LOADERS ct of
        Some (cat, ik) \<Rightarrow> inputs_loop cat (key_list ik) (inputs_of kvs) []
      | None \<Rightarrow>
          if sublist ''Loader'' ct then patterns_scan LOADER_PATTERNS ct (inputs_of kvs)
          else Inr [])"
  by (simp add: node_models_def dict_get_JDict loader_lookup_def str_in_def inputs_of_def
      extract_from_patterns_def extract_from_inputs_def split: option.splits)

lemma no_empty_loader: "map_of MODEL_LOADERS [] = None"
  by (simp add: MODEL_LOADERS_def)

lemma node_models_no_type:
  "map_of kvs ''class_type'' = None \<Longrightarrow> node_models (JDict kvs) = Inr []"
  by (simp add: node_models_def dict_get_JDict loader_lookup_def str_in_def no_empty_loader)

lemma node_models_bad_type:
  "map_of kvs ''class_type'' = Some v \<Longrightarrow> \<forall>s. v \<noteq> JStr s \<Longrightarrow>
   \<exists>e. node_models (JDict kvs) = Inl e"
  by (cases v) (simp_all add: node_models_def dict_get_JDict loader_lookup_def str_in_def)

lemma node_models_non_dict: "\<not> is_dict nd \<Longrightarrow> node_models nd = Inl AttributeError"
  by (simp add: node_models_def dict_get_non_dict)

lemma inputs_of_dict: "is_dict (inputs_of kvs) \<Longrightarrow> inputs_of kvs = JDict (inputs_dict kvs)"
  by (auto simp: inputs_of_def inputs_dict_def split: option.splits json.splits)

lemma inputs_dict_non_dict: "\<not> is_dict (inputs_of kvs) \<Longrightarrow> inputs_dict kvs = []"
  by (auto simp: inputs_of_def inputs_dict_def split: option.splits json.splits)

lemma node_ok_str:
  "map_of kvs ''class_type'' = Some (JStr ct) \<Longrightarrow>
   node_ok (JDict kvs) = (is_dict (inputs_of kvs) \<or> \<not> consults_inputs ct)"
  by (auto simp: node_ok_def inputs_of_def split: option.splits)


lemma node_refs_str:
  "map_of kvs ''class_type'' = Some (JStr ct) \<Longrightarrow>
   node_refs (JDict kvs) =
     (case map_of MODEL_LOADERS ct of
        Some (cat, ik) \<Rightarrow> table_refs cat (key_list ik) (inputs_dict kvs)
      | None \<Rightarrow> if sublist ''Loader'' ct then pattern_refs ct (inputs_dict kvs) else [])"
  by (simp add: node_refs_def)

lemma node_str_ok:
  assumes ct: "map_of kvs ''class_type'' = Some (JStr ct)"
    and ok: "is_dict (inputs_of kvs) \<or> \<not> consults_inputs ct"
  shows "node_models (JDict kvs) = Inr (node_refs (JDict kvs))"
proof (cases "map_of MODEL_LOADERS ct")
  case None
  show ?thesis
  proof (cases "sublist ''Loader'' ct")
    case False
    with None ct show ?thesis by (simp add: node_models_str node_refs_str)
  next
    case True
    show ?thesis
    proof (cases "is_dict (inputs_of kvs)")
      case d: True
      have "patterns_scan LOADER_PATTERNS ct (inputs_of kvs) = Inr (pattern_refs ct (inputs_dict kvs))"
        by (simp add: inputs_of_dict [OF d] patterns_scan_dict pattern_refs_def)
      with None True ct show ?thesis by (simp add: node_models_str node_refs_str)
    next
      case nd: False
      with ok True have np: "first_pattern LOADER_PATTERNS ct = None"
        by (cases "first_pattern LOADER_PATTERNS ct") (auto simp: consults_inputs_def)
      have "patterns_scan LOADER_PATTERNS ct (inputs_of kvs) = Inr []"
        by (rule patterns_scan_none [OF np])
      moreover have "pattern_refs ct (inputs_dict kvs) = []"
        by (simp add: pattern_refs_def np)
      ultimately show ?thesis
        using None True ct by (simp add: node_models_str node_refs_str)
    qed
  qed
next
  case (Some e)
  obtain cat ik where e: "e = (cat, ik)" by (cases e)
  from Some ok have d: "is_dict (inputs_of kvs)"
    by (simp add: consults_inputs_def)
  show ?thesis
    using ct Some e
    by (simp add: node_models_str node_refs_str inputs_of_dict [OF d] inputs_loop_dict)
qed

lemma node_str_not_ok:
  assumes ct: "map_of kvs ''class_type'' = Some (JStr ct)"
    and nd: "\<not> is_dict (inputs_of kvs)" and c: "consults_inputs ct"
  shows "node_models (JDict kvs) = Inl AttributeError"
proof (cases "map_of MODEL_LOADERS ct")
  case None
  with c have l: "sublist ''Loader'' ct" and "first_pattern LOADER_PATTERNS ct \<noteq> None"
    by (simp_all add: consults_inputs_def)
  then obtain p cat ks where fp: "first_pattern LOADER_PATTERNS ct = Some (p, cat, ks)"
    by (cases "first_pattern LOADER_PATTERNS ct") auto
  have "patterns_scan LOADER_PATTERNS ct (inputs_of kvs) = Inl AttributeError"
    by (simp add: patterns_scan_some [OF fp] keys_scan_non_dict [OF nd pattern_keys_nonempty [OF fp]])
  with None l ct show ?thesis by (simp add: node_models_str)
next
  case (Some e)
  obtain cat ik where e: "e = (cat, ik)" by (cases e)
  have "key_list ik \<noteq> []"
    using Some unfolding e by (rule table_keys_nonempty)
  with ct Some e nd show ?thesis
    by (simp add: node_models_str inputs_loop_non_dict)
qed

lemma node_models_ok: "node_ok nd \<Longrightarrow> node_models nd = Inr (node_refs nd)"
proof (cases nd)
  case (JDict kvs)
  assume ok: "node_ok nd"
  show ?thesis
  proof (cases "map_of kvs ''class_type''")
    case None
    then show ?thesis by (simp add: JDict node_models_no_type node_refs_def)
  next
    case (Some v)
    with ok JDict obtain ct where v: "v = JStr ct"
      by (cases v) (simp_all add: node_ok_def)
    from ok show ?thesis
      unfolding JDict using Some v by (simp add: node_ok_str node_str_ok)
  qed
qed (simp_all add: node_ok_def)

lemma node_models_not_ok: "\<not> node_ok nd \<Longrightarrow> \<exists>e. node_models nd = Inl e"
proof (cases "is_dict nd")
  case False
  then show ?thesis by (simp add: node_models_non_dict)
next
  case True
  assume nok: "\<not> node_ok nd"
  from True obtain kvs where nd: "nd = JDict kvs" by (cases nd) simp_all
  show ?thesis
  proof (cases "map_of kvs ''class_type''")
    case None
    with nok nd show ?thesis by (simp add: node_ok_def)
  next
    case (Some v)
    show ?thesis
    proof (cases "\<exists>ct. v = JStr ct")
      case False
      then show ?thesis using Some nd by (simp add: node_models_bad_type)
    next
      case True
      then obtain ct where v: "v = JStr ct" by blast
      with nok nd Some show ?thesis
        by (simp add: node_ok_str node_str_not_ok)
    qed
  qed
qed

lemma all_extracted_ok:
  "\<forall>n \<in> set prompt. node_ok (snd n) \<Longrightarrow>
   all_extracted prompt = Inr (concat (map (\<lambda>n. node_refs (snd n)) prompt))"
  by (induction prompt) (auto simp: node_models_ok)

lemma all_extracted_not_ok:
  "\<not> (\<forall>n \<in> set prompt. node_ok (snd n)) \<Longrightarrow> \<exists>e. all_extracted prompt = Inl e"
proof (induction prompt)
  case Nil
  then show ?case by simp
next
  case (Cons n prompt)
  obtain node_id node_data where n: "n = (node_id, node_data)" by (cases n)
  show ?case
  proof (cases "node_ok node_data")
    case False
    then obtain e where "node_models node_data = Inl e"
      using node_models_not_ok by blast
    then show ?thesis by (simp add: n)
  next
    case True
    with Cons n obtain e where "all_extracted prompt = Inl e" by auto
    then show ?thesis by (simp add: n node_models_ok [OF True])
  qed
qed

text \<open>
  Claim C9, as the code has it. Extraction completes without raising exactly when every node
  value is a dict whose \<open>class_type\<close>, when present, is a string and whose \<open>inputs\<close>, when
  present and consulted, is a dict. Then nodes without \<open>class_type\<close> or \<open>inputs\<close> and input
  values that are absent, not strings or empty contribute nothing, and the references of the
  other nodes are returned (deduplicated, in visitation order). Any other node value makes
  the whole extraction raise, and nothing is returned for the well-formed nodes either.
\<close>

theorem extraction_total_iff_nodes_well_shaped:
  "((\<forall>n \<in> set prompt. node_ok (snd n)) \<longrightarrow>
      extract_models_from_prompt prompt =
        Inr (dedup_by_id (concat (map (\<lambda>n. node_refs (snd n)) prompt))))
   \<and> (\<not> (\<forall>n \<in> set prompt. node_ok (snd n)) \<longrightarrow>
      (\<exists>e. extract_models_from_prompt prompt = Inl e))"
proof (intro conjI impI)
  assume "\<forall>n \<in> set prompt. node_ok (snd n)"
  then show "extract_models_from_prompt prompt =
        Inr (dedup_by_id (concat (map (\<lambda>n. node_refs (snd n)) prompt)))"
    by (simp add: extract_eq all_extracted_ok)
next
  assume "\<not> (\<forall>n \<in> set prompt. node_ok (snd n))"
  then obtain e where "all_extracted prompt = Inl e"
    using all_extracted_not_ok by blast
  then show "\<exists>e. extract_models_from_prompt prompt = Inl e"
    by (simp add: extract_eq)
qed



theorem extraction_total_iff_nodes_well_shaped_witness:
  "node_ok (JDict [])
   \<and> node_ok (JDict [(''class_type'', JStr ''CheckpointLoaderSimple''),
                      (''inputs'', JDict [(''ckpt_name'', JInt 5)])])
   \<and> node_ok (JDict [(''class_type'', JStr ''LoraLoader''),
                      (''inputs'', JDict [(''lora_name'', JStr [])])])
   \<and> node_ok (JDict [(''class_type'', JStr ''VAELoader'')])
   \<and> node_ok (JDict [(''class_type'', JStr ''KSampler''), (''inputs'', JList [])])
   \<and> node_ok (JDict [(''class_type'', JStr ''CheckpointLoaderSimple''),
                      (''inputs'', JDict [(''ckpt_name'', JStr ''sd15.safetensors'')])])
   \<and> extract_models_from_prompt
       [(''1'', JDict []),
        (''2'', JDict [(''class_type'', JStr ''CheckpointLoaderSimple''),
                       (''inputs'', JDict [(''ckpt_name'', JInt 5)])]),
        (''3'', JDict [(''class_type'', JStr ''LoraLoader''),
                       (''inputs'', JDict [(''lora_name'', JStr [])])]),
        (''4'', JDict [(''class_type'', JStr ''VAELoader'')]),
        (''5'', JDict [(''class_type'', JStr ''KSampler''), (''inputs'', JList [])]),
        (''6'', JDict [(''class_type'', JStr ''CheckpointLoaderSimple''),
                       (''inputs'', JDict [(''ckpt_name'', JStr ''sd15.safetensors'')])])]
     = Inr [\<lparr>category = ''checkpoint'', name = ''sd15.safetensors'',
              model_id = ''checkpoint/sd15.safetensors''\<rparr>]"
proof -
  let ?n1 = "JDict []"
  let ?n2 = "JDict [(''class_type'', JStr ''CheckpointLoaderSimple''),
                    (''inputs'', JDict [(''ckpt_name'', JInt 5)])]"
  let ?n3 = "JDict [(''class_type'', JStr ''LoraLoader''),
                    (''inputs'', JDict [(''lora_name'', JStr [])])]"
  let ?n4 = "JDict [(''class_type'', JStr ''VAELoader'')]"
  let ?n5 = "JDict [(''class_type'', JStr ''KSampler''), (''inputs'', JList [])]"
  let ?n6 = "JDict [(''class_type'', JStr ''CheckpointLoaderSimple''),
                    (''inputs'', JDict [(''ckpt_name'', JStr ''sd15.safetensors'')])]"
  have ok: "node_ok ?n1" "node_ok ?n2" "node_ok ?n3" "node_ok ?n4" "node_ok ?n5" "node_ok ?n6"
    by code_simp+
  have refs: "node_refs ?n1 = []" "node_refs ?n2 = []" "node_refs ?n3 = []"
    "node_refs ?n4 = []" "node_refs ?n5 = []"
    "node_refs ?n6 = [\<lparr>category = ''checkpoint'', name = ''sd15.safetensors'',
              model_id = ''checkpoint/sd15.safetensors''\<rparr>]"
    by code_simp+
  show ?thesis
    using extraction_total_iff_nodes_well_shaped [of "[(''1'', ?n1), (''2'', ?n2), (''3'', ?n3), (''4'', ?n4), (''5'', ?n5), (''6'', ?n6)]"]
    by (simp add: ok refs)
qed

text \<open>
  The claim as stated fails: a node value that is not a dict (\<open>AttributeError\<close>), a
  \<open>class_type\<close> that is not a string (\<open>TypeError\<close>) and a consulted \<open>inputs\<close> that is not a
  dict (\<open>AttributeError\<close>) each end the extraction with an exception.
\<close>

theorem extraction_raises_on_malformed_node:
  "extract_models_from_prompt
     [(''1'', JDict [(''class_type'', JStr ''CheckpointLoaderSimple''),
                     (''inputs'', JDict [(''ckpt_name'', JStr ''sd15.safetensors'')])]),
      (''2'', JStr ''note'')]
     = Inl AttributeError
   \<and> extract_models_from_prompt
     [(''1'', JDict [(''class_type'', JInt 7), (''inputs'', JDict [])])]
     = Inl TypeError
   \<and> extract_models_from_prompt
     [(''1'', JDict [(''class_type'', JStr ''VAELoader''), (''inputs'', JList [])])]
     = Inl AttributeError"
  by (simp add: extract_models_from_prompt_def node_models_def dict_get_def eval_lookup
      loader_lookup_def str_in_def MODEL_LOADERS_def extract_from_inputs_def make_ref_def)



section \<open>Properties of the recorder\<close>

lemma record_model_map:
  "map_of (record_model ms now m) =
     (map_of ms)(model_id m \<mapsto>
        touch (case map_of ms (model_id m) of None \<Rightarrow> new_model_data m now | Some md \<Rightarrow> md) now)"
  by (cases "map_of ms (model_id m)") (simp_all add: record_model_def update_conv')

lemma count_of_record_model:
  "count_of (record_model ms now m) mid = count_of ms mid + (if model_id m = mid then 1 else 0)"
  by (simp add: count_of_def record_model_map touch_def new_model_data_def split: option.splits)

lemma count_of_record_loop:
  "count_of (record_loop ms now xs) mid = count_of ms mid + int (count_list (map model_id xs) mid)"
  by (induction xs arbitrary: ms) (simp_all add: count_of_record_model)

lemma none_record_loop:
  "map_of (record_loop ms now xs) mid = None \<longleftrightarrow>
     map_of ms mid = None \<and> mid \<notin> set (map model_id xs)"
  by (induction xs arbitrary: ms) (auto simp: record_model_map)

lemma unchanged_record_loop:
  "mid \<notin> set (map model_id xs) \<Longrightarrow> map_of (record_loop ms now xs) mid = map_of ms mid"
  by (induction xs arbitrary: ms) (auto simp: record_model_map)

lemma last_used_record_model:
  "map_option last_used (map_of (record_model ms now m) mid) =
     (if model_id m = mid then Some (now_iso now) else map_option last_used (map_of ms mid))"
  by (simp add: record_model_map touch_def)

lemma last_used_record_loop:
  "map_option last_used (map_of (record_loop ms now xs) mid) =
     (if mid \<in> set (map model_id xs) then Some (now_iso now)
      else map_option last_used (map_of ms mid))"
  by (induction xs arbitrary: ms) (auto simp: last_used_record_model)

lemma models_record_usage:
  "models (record_usage data ms now saved) = record_loop (models data) now ms"
  by (simp add: record_usage_def stamp_last_updated_def)

lemma appearances_Nil: "appearances [] mid = 0"
  by (simp add: appearances_def)

lemma appearances_Cons:
  "appearances ((ms, now, saved) # calls) mid = count_list (map model_id ms) mid + appearances calls mid"
  by (simp add: appearances_def)

lemma count_of_record_calls:
  "count_of (models (record_calls data calls)) mid =
     count_of (models data) mid + int (appearances calls mid)"
proof (induction calls arbitrary: data)
  case Nil
  show ?case by (simp add: appearances_Nil)
next
  case (Cons c calls)
  obtain ms now saved where c: "c = (ms, now, saved)" by (cases c)
  show ?case
    by (simp add: c Cons.IH models_record_usage count_of_record_loop appearances_Cons)
qed

lemma none_record_calls:
  "map_of (models (record_calls data calls)) mid = None \<longleftrightarrow>
     map_of (models data) mid = None \<and> appearances calls mid = 0"
proof (induction calls arbitrary: data)
  case Nil
  show ?case by (simp add: appearances_Nil)
next
  case (Cons c calls)
  obtain ms now saved where c: "c = (ms, now, saved)" by (cases c)
  have "count_list (map model_id ms) mid = 0 \<longleftrightarrow> mid \<notin> set (map model_id ms)"
    by (simp add: count_list_0_iff)
  then show ?case
    by (auto simp: c Cons.IH models_record_usage none_record_loop appearances_Cons)
qed

lemma last_used_record_calls:
  "map_option last_used (map_of (models (record_calls data calls)) mid) =
     (if calls_with calls mid = [] then map_option last_used (map_of (models data) mid)
      else Some (now_iso (fst (snd (last (calls_with calls mid))))))"
proof (induction calls arbitrary: data)
  case Nil
  show ?case by (simp add: calls_with_def)
next
  case (Cons c calls)
  obtain ms now saved where c: "c = (ms, now, saved)" by (cases c)
  show ?case
    by (simp add: c Cons.IH models_record_usage last_used_record_loop calls_with_def)
qed

lemma calls_with_empty: "calls_with calls mid = [] \<longleftrightarrow> appearances calls mid = 0"
proof (induction calls)
  case Nil
  show ?case by (simp add: calls_with_def appearances_Nil)
next
  case (Cons c calls)
  obtain ms now saved where c: "c = (ms, now, saved)" by (cases c)
  have "count_list (map model_id ms) mid = 0 \<longleftrightarrow> mid \<notin> set (map model_id ms)"
    by (simp add: count_list_0_iff)
  with Cons show ?case
    by (auto simp: c calls_with_def appearances_Cons)
qed

text \<open>
  Claim C1. Start from a document without model records and run any sequence of
  \<open>record_usage\<close> calls. For every identifier: when it never appeared in a list passed to
  \<open>record_usage\<close> it has no record; otherwise its record exists, \<open>usage_count\<close> is the
  number of its appearances across all the lists (an identifier repeated within one list
  counts each time), and \<open>last_used\<close> is the timestamp of the last call whose list
  contained it.
\<close>

theorem usage_count_and_last_used:
  assumes "models data = []"
  shows "(appearances calls mid = 0 \<longrightarrow> map_of (models (record_calls data calls)) mid = None)
       \<and> (0 < appearances calls mid \<longrightarrow>
            (\<exists>md. map_of (models (record_calls data calls)) mid = Some md
                 \<and> usage_count md = int (appearances calls mid)
                 \<and> last_used md = now_iso (fst (snd (last (calls_with calls mid))))))"
proof (intro conjI impI)
  assume "appearances calls mid = 0"
  with assms show "map_of (models (record_calls data calls)) mid = None"
    by (simp add: none_record_calls)
next
  assume pos: "0 < appearances calls mid"
  with assms have "map_of (models (record_calls data calls)) mid \<noteq> None"
    by (simp add: none_record_calls)
  then obtain md where md: "map_of (models (record_calls data calls)) mid = Some md"
    by auto
  have "count_of (models data) mid = 0"
    using assms by (simp add: count_of_def)
  with count_of_record_calls [of data calls mid]
  have "count_of (models (record_calls data calls)) mid = int (appearances calls mid)"
    by simp
  with md have c: "usage_count md = int (appearances calls mid)"
    by (simp add: count_of_def)
  from pos have "calls_with calls mid \<noteq> []"
    by (simp add: calls_with_empty)
  with last_used_record_calls [of data calls mid] md
  have "last_used md = now_iso (fst (snd (last (calls_with calls mid))))"
    by simp
  with md c show "\<exists>md. map_of (models (record_calls data calls)) mid = Some md
                 \<and> usage_count md = int (appearances calls mid)
                 \<and> last_used md = now_iso (fst (snd (last (calls_with calls mid))))"
    by simp
qed


theorem usage_count_and_last_used_witness:
  "models (create_empty_data \<lparr>isoformat = ''2026-11-03T09:00:00'', day = 739923\<rparr>) = []
   \<and> appearances
        [([make_ref ''lora'' ''a'', make_ref ''vae'' ''b'', make_ref ''lora'' ''a''],
          \<lparr>isoformat = ''2026-11-03T10:00:00'', day = 739923\<rparr>,
          \<lparr>isoformat = ''2026-11-03T10:00:01'', day = 739923\<rparr>),
         ([make_ref ''lora'' ''a''],
          \<lparr>isoformat = ''2026-11-04T11:00:00'', day = 739924\<rparr>,
          \<lparr>isoformat = ''2026-11-04T11:00:01'', day = 739924\<rparr>),
         ([make_ref ''vae'' ''b''],
          \<lparr>isoformat = ''2026-11-04T12:00:00'', day = 739924\<rparr>,
          \<lparr>isoformat = ''2026-11-04T12:00:01'', day = 739924\<rparr>)] ''lora/a'' = 3
   \<and> (\<exists>md. map_of (models (record_calls
          (create_empty_data \<lparr>isoformat = ''2026-11-03T09:00:00'', day = 739923\<rparr>)
          [([make_ref ''lora'' ''a'', make_ref ''vae'' ''b'', make_ref ''lora'' ''a''],
            \<lparr>isoformat = ''2026-11-03T10:00:00'', day = 739923\<rparr>,
            \<lparr>isoformat = ''2026-11-03T10:00:01'', day = 739923\<rparr>),
           ([make_ref ''lora'' ''a''],
            \<lparr>isoformat = ''2026-11-04T11:00:00'', day = 739924\<rparr>,
            \<lparr>isoformat = ''2026-11-04T11:00:01'', day = 739924\<rparr>),
           ([make_ref ''vae'' ''b''],
            \<lparr>isoformat = ''2026-11-04T12:00:00'', day = 739924\<rparr>,
            \<lparr>isoformat = ''2026-11-04T12:00:01'', day = 739924\<rparr>)])) ''lora/a'' = Some md
        \<and> usage_count md = 3 \<and> last_used md = ''2026-11-04T11:00:00Z'')"
proof -
  let ?d = "create_empty_data \<lparr>isoformat = ''2026-11-03T09:00:00'', day = 739923\<rparr>"
  let ?calls = "[([make_ref ''lora'' ''a'', make_ref ''vae'' ''b'', make_ref ''lora'' ''a''],
          \<lparr>isoformat = ''2026-11-03T10:00:00'', day = 739923\<rparr>,
          \<lparr>isoformat = ''2026-11-03T10:00:01'', day = 739923\<rparr>),
         ([make_ref ''lora'' ''a''],
          \<lparr>isoformat = ''2026-11-04T11:00:00'', day = 739924\<rparr>,
          \<lparr>isoformat = ''2026-11-04T11:00:01'', day = 739924\<rparr>),
         ([make_ref ''vae'' ''b''],
          \<lparr>isoformat = ''2026-11-04T12:00:00'', day = 739924\<rparr>,
          \<lparr>isoformat = ''2026-11-04T12:00:01'', day = 739924\<rparr>)]"
  have e: "models ?d = []"
    by (simp add: create_empty_data_def)
  have a: "appearances ?calls ''lora/a'' = 3"
    by (simp add: appearances_def make_ref_def)
  have l: "now_iso (fst (snd (last (calls_with ?calls ''lora/a'')))) = ''2026-11-04T11:00:00Z''"
    by (simp add: calls_with_def make_ref_def now_iso_def)
  show ?thesis
    using usage_count_and_last_used [OF e, of ?calls "''lora/a''"] e a l by simp
qed


lemma update_log_dates:
  "map date (update_log log t) =
     (if log \<noteq> [] \<and> date (last log) = t then map date log else map date log @ [t])"
proof (cases "log \<noteq> [] \<and> date (last log) = t")
  case True
  then have "butlast log @ [last log] = log" by simp
  then have "map date (butlast log @ [last log]) = map date log" by simp
  then have "map date (butlast log) @ [date (last log)] = map date log" by simp
  with True show ?thesis by (simp add: update_log_def)
next
  case False
  then show ?thesis by (auto simp: update_log_def)
qed

lemma strict_sorted_last_max:
  "sorted_wrt (<) (xs :: int list) \<Longrightarrow> x \<in> set xs \<Longrightarrow> x \<le> last xs"
proof (induction xs)
  case Nil
  then show ?case by simp
next
  case (Cons a xs)
  show ?case
  proof (cases "xs = []")
    case True
    with Cons.prems show ?thesis by simp
  next
    case False
    then have l: "last xs \<in> set xs" by simp
    show ?thesis
    proof (cases "x \<in> set xs")
      case True
      with Cons False show ?thesis by simp
    next
      case nx: False
      with Cons.prems have "x = a" by simp
      with Cons.prems l have "x < last xs" by auto
      with False show ?thesis by simp
    qed
  qed
qed

lemma log_ordered_alt:
  "log_ordered t log \<longleftrightarrow> sorted_wrt (<) (map date log) \<and> (\<forall>d \<in> set (map date log). d \<le> t)"
  by (auto simp: log_ordered_def)

lemma log_ordered_update:
  assumes "log_ordered t log" and "t \<le> t'"
  shows "log_ordered t' (update_log log t')"
proof (cases "log \<noteq> [] \<and> date (last log) = t'")
  case True
  then have "map date (update_log log t') = map date log"
    by (simp add: update_log_dates)
  with assms show ?thesis
    unfolding log_ordered_alt by fastforce
next
  case False
  then have m: "map date (update_log log t') = map date log @ [t']"
    by (simp add: update_log_dates)
  have lt: "d < t'" if d: "d \<in> set (map date log)" for d
  proof -
    from d have ne: "log \<noteq> []" by auto
    have s: "sorted_wrt (<) (map date log)"
      using assms by (simp add: log_ordered_alt)
    have "d \<le> last (map date log)"
      using s d by (rule strict_sorted_last_max)
    moreover have "last (map date log) \<in> set (map date log)"
      using ne by (intro last_in_set) simp
    then have "last (map date log) \<le> t'"
      using assms unfolding log_ordered_alt by fastforce
    moreover have "last (map date log) \<noteq> t'"
      using False ne by (simp add: last_map)
    ultimately show ?thesis by simp
  qed
  have "sorted_wrt (<) (map date log @ [t'])"
    using assms lt by (simp add: log_ordered_alt sorted_wrt_append)
  moreover have "\<forall>d \<in> set (map date log @ [t']). d \<le> t'"
    using lt by fastforce
  ultimately show ?thesis
    unfolding log_ordered_alt m by simp
qed



lemma set_update_subset: "set (AList.update k v ms) \<subseteq> insert (k, v) (set ms)"
  by (induction ms) auto

lemma log_ordered_mono: "log_ordered t log \<Longrightarrow> t \<le> t' \<Longrightarrow> log_ordered t' log"
  unfolding log_ordered_alt by fastforce

lemma log_ordered_touch:
  assumes "log_ordered t (usage_log md)" and "t \<le> day now"
  shows "log_ordered (day now) (usage_log (touch md now))"
  using log_ordered_update [OF assms] by (simp add: touch_def)

lemma log_ordered_new: "log_ordered t (usage_log (new_model_data m now))"
  by (simp add: new_model_data_def log_ordered_def)

lemma record_model_ordered:
  assumes inv: "\<forall>p \<in> set ms. log_ordered t (usage_log (snd p))" and le: "t \<le> day now"
  shows "\<forall>p \<in> set (record_model ms now m). log_ordered (day now) (usage_log (snd p))"
proof
  fix p assume p: "p \<in> set (record_model ms now m)"
  let ?old = "case map_of ms (model_id m) of None \<Rightarrow> new_model_data m now | Some md \<Rightarrow> md"
  have old: "log_ordered t (usage_log ?old)"
  proof (cases "map_of ms (model_id m)")
    case None
    then show ?thesis by (simp add: log_ordered_new)
  next
    case (Some md)
    then have "(model_id m, md) \<in> set ms" by (rule map_of_SomeD)
    with inv Some show ?thesis by fastforce
  qed
  have r: "set (record_model ms now m) \<subseteq> insert (model_id m, touch ?old now) (set ms)"
  proof (cases "map_of ms (model_id m)")
    case None
    have "set (AList.update (model_id m) (touch (new_model_data m now) now)
                 (AList.update (model_id m) (new_model_data m now) ms))
          \<subseteq> insert (model_id m, touch (new_model_data m now) now) (set ms)"
      by (simp add: set_update_subset)
    with None show ?thesis by (simp add: record_model_def update_conv')
  next
    case (Some md)
    then show ?thesis by (simp add: record_model_def set_update_subset)
  qed
  from p r have "p = (model_id m, touch ?old now) \<or> p \<in> set ms" by auto
  then show "log_ordered (day now) (usage_log (snd p))"
  proof
    assume "p = (model_id m, touch ?old now)"
    then show ?thesis using log_ordered_touch [OF old le] by simp
  next
    assume "p \<in> set ms"
    with inv have "log_ordered t (usage_log (snd p))" by simp
    then show ?thesis using le by (rule log_ordered_mono)
  qed
qed

lemma record_loop_ordered:
  assumes "\<forall>p \<in> set ms. log_ordered t (usage_log (snd p))" and "t \<le> day now"
  shows "\<forall>p \<in> set (record_loop ms now xs). log_ordered (if xs = [] then t else day now) (usage_log (snd p))"
  using assms
proof (induction xs arbitrary: ms t)
  case Nil
  then show ?case by simp
next
  case (Cons x xs)
  have 1: "\<forall>p \<in> set (record_model ms now x). log_ordered (day now) (usage_log (snd p))"
    using Cons.prems by (rule record_model_ordered)
  have "\<forall>p \<in> set (record_loop (record_model ms now x) now xs).
          log_ordered (if xs = [] then day now else day now) (usage_log (snd p))"
    using 1 by (rule Cons.IH) simp
  then show ?case by simp
qed

lemma call_day_simp: "call_day (ms, now, saved) = day now"
  by (simp add: call_day_def)

lemma record_calls_ordered:
  assumes "\<forall>p \<in> set (models data). log_ordered t (usage_log (snd p))"
    and "sorted (t # map call_day calls)"
  shows "\<forall>p \<in> set (models (record_calls data calls)).
           log_ordered (last (t # map call_day calls)) (usage_log (snd p))"
  using assms
proof (induction calls arbitrary: data t)
  case Nil
  then show ?case by simp
next
  case (Cons c calls)
  obtain ms now saved where c: "c = (ms, now, saved)" by (cases c)
  from Cons.prems(2) have le: "t \<le> day now" and s: "sorted (day now # map call_day calls)"
    by (simp_all add: c call_day_simp)
  have "\<forall>p \<in> set (record_loop (models data) now ms).
          log_ordered (if ms = [] then t else day now) (usage_log (snd p))"
    using Cons.prems(1) le by (rule record_loop_ordered)
  then have "\<forall>p \<in> set (models (record_usage data ms now saved)).
          log_ordered (day now) (usage_log (snd p))"
    using le by (auto simp: models_record_usage intro: log_ordered_mono)
  then have "\<forall>p \<in> set (models (record_calls (record_usage data ms now saved) calls)).
           log_ordered (last (day now # map call_day calls)) (usage_log (snd p))"
    using s by (rule Cons.IH)
  then show ?case by (simp add: c call_day_simp)
qed


lemma strict_sorted_distinct_sorted:
  "sorted_wrt (<) (xs :: int list) \<Longrightarrow> distinct xs \<and> sorted xs"
  by (simp add: strict_sorted_iff)

lemma strict_sorted_butlast_less:
  assumes "sorted_wrt (<) (xs :: int list)" and "\<forall>x \<in> set xs. x \<le> t" and "x \<in> set (butlast xs)"
  shows "x < t"
proof -
  from assms(3) have ne: "xs \<noteq> []" by auto
  then have xs: "xs = butlast xs @ [last xs]" by simp
  have "sorted_wrt (<) (butlast xs @ [last xs])" using assms(1) xs by simp
  then have "x < last xs" using assms(3) by (simp add: sorted_wrt_append)
  moreover have "last xs \<le> t" using assms(2) ne by simp
  ultimately show ?thesis by simp
qed

lemma twice_same_day:
  assumes "models data = []" and "day n1 = day n2"
  shows "map_option usage_log
           (map_of (models (record_calls data [([m], n1, s1), ([m], n2, s2)])) (model_id m))
         = Some [\<lparr>date = day n1, count = 2\<rparr>]"
  using assms
  by (simp add: models_record_usage record_model_map touch_def new_model_data_def update_log_def)

text \<open>
  Claim C2. Start from a document without model records and run \<open>record_usage\<close> calls whose
  dates do not decrease. Then in every model's \<open>usage_log\<close> the dates are pairwise distinct
  and ascending, no entry is later than the date of the latest call, and every entry but the
  last is strictly earlier than it, so an entry of the current date can only be the last
  one. In particular, two calls on the same date that each pass one reference to the same
  model leave the single entry \<open>{date: today, count: 2}\<close>.
\<close>

theorem daily_log_one_entry_per_date:
  assumes "models data = []"
    and "sorted (map call_day calls)"
  shows "(\<forall>p \<in> set (models (record_calls data calls)).
            distinct (map date (usage_log (snd p)))
          \<and> sorted (map date (usage_log (snd p)))
          \<and> (\<forall>e \<in> set (butlast (usage_log (snd p))). date e < call_day (last calls))
          \<and> (\<forall>e \<in> set (usage_log (snd p)). date e \<le> call_day (last calls)))
       \<and> (\<forall>m n1 s1 n2 s2. day n1 = day n2 \<longrightarrow>
            map_option usage_log
              (map_of (models (record_calls data [([m], n1, s1), ([m], n2, s2)])) (model_id m))
            = Some [\<lparr>date = day n1, count = 2\<rparr>])"
proof (intro conjI ballI allI impI)
  fix p assume p: "p \<in> set (models (record_calls data calls))"
  have ne: "calls \<noteq> []"
    using p assms(1) by (cases calls) auto
  define t where "t = call_day (hd calls)"
  have "sorted (t # map call_day calls)"
    using assms(2) ne by (cases calls) (auto simp: t_def)
  moreover have "\<forall>p \<in> set (models data). log_ordered t (usage_log (snd p))"
    using assms(1) by simp
  ultimately have "\<forall>p \<in> set (models (record_calls data calls)).
           log_ordered (last (t # map call_day calls)) (usage_log (snd p))"
    by (rule record_calls_ordered [rotated])
  moreover have "last (t # map call_day calls) = call_day (last calls)"
    using ne by (simp add: last_map)
  ultimately have lo: "log_ordered (call_day (last calls)) (usage_log (snd p))"
    using p by simp
  then have s: "sorted_wrt (<) (map date (usage_log (snd p)))"
    and b: "\<forall>d \<in> set (map date (usage_log (snd p))). d \<le> call_day (last calls)"
    by (simp_all add: log_ordered_alt)
  from s show "distinct (map date (usage_log (snd p)))"
    by (simp add: strict_sorted_distinct_sorted)
  from s show "sorted (map date (usage_log (snd p)))"
    by (simp add: strict_sorted_distinct_sorted)
  from b show "\<And>e. e \<in> set (usage_log (snd p)) \<Longrightarrow> date e \<le> call_day (last calls)"
    by simp
  show "\<And>e. e \<in> set (butlast (usage_log (snd p))) \<Longrightarrow> date e < call_day (last calls)"
  proof -
    fix e assume "e \<in> set (butlast (usage_log (snd p)))"
    then have "date e \<in> set (butlast (map date (usage_log (snd p))))"
      by (simp add: map_butlast [symmetric])
    with s b show "date e < call_day (last calls)"
      by (rule strict_sorted_butlast_less)
  qed
next
  fix m :: model_ref and n1 s1 n2 s2 :: instant
  assume "day n1 = day n2"
  with assms(1) show "map_option usage_log
              (map_of (models (record_calls data [([m], n1, s1), ([m], n2, s2)])) (model_id m))
            = Some [\<lparr>date = day n1, count = 2\<rparr>]"
    by (rule twice_same_day)
qed


theorem daily_log_one_entry_per_date_witness:
  "models (create_empty_data \<lparr>isoformat = ''2026-11-03T09:00:00'', day = 739923\<rparr>) = []
   \<and> sorted (map call_day
        [([make_ref ''lora'' ''a'', make_ref ''vae'' ''b''],
          \<lparr>isoformat = ''2026-11-03T10:00:00'', day = 739923\<rparr>,
          \<lparr>isoformat = ''2026-11-03T10:00:01'', day = 739923\<rparr>),
         ([make_ref ''lora'' ''a''],
          \<lparr>isoformat = ''2026-11-03T11:00:00'', day = 739923\<rparr>,
          \<lparr>isoformat = ''2026-11-03T11:00:01'', day = 739923\<rparr>),
         ([make_ref ''lora'' ''a''],
          \<lparr>isoformat = ''2026-11-04T12:00:00'', day = 739924\<rparr>,
          \<lparr>isoformat = ''2026-11-04T12:00:01'', day = 739924\<rparr>)])
   \<and> map (\<lambda>p. (fst p, usage_log (snd p)))
        (models (record_calls
          (create_empty_data \<lparr>isoformat = ''2026-11-03T09:00:00'', day = 739923\<rparr>)
          [([make_ref ''lora'' ''a'', make_ref ''vae'' ''b''],
            \<lparr>isoformat = ''2026-11-03T10:00:00'', day = 739923\<rparr>,
            \<lparr>isoformat = ''2026-11-03T10:00:01'', day = 739923\<rparr>),
           ([make_ref ''lora'' ''a''],
            \<lparr>isoformat = ''2026-11-03T11:00:00'', day = 739923\<rparr>,
            \<lparr>isoformat = ''2026-11-03T11:00:01'', day = 739923\<rparr>),
           ([make_ref ''lora'' ''a''],
            \<lparr>isoformat = ''2026-11-04T12:00:00'', day = 739924\<rparr>,
            \<lparr>isoformat = ''2026-11-04T12:00:01'', day = 739924\<rparr>)]))
     = [(''lora/a'', [\<lparr>date = 739923, count = 2\<rparr>, \<lparr>date = 739924, count = 1\<rparr>]),
        (''vae/b'', [\<lparr>date = 739923, count = 1\<rparr>])]
   \<and> distinct (map date [\<lparr>date = 739923, count = 2\<rparr>, \<lparr>date = 739924, count = 1\<rparr>])"
proof -
  let ?d = "create_empty_data \<lparr>isoformat = ''2026-11-03T09:00:00'', day = 739923\<rparr>"
  let ?calls = "[([make_ref ''lora'' ''a'', make_ref ''vae'' ''b''],
          \<lparr>isoformat = ''2026-11-03T10:00:00'', day = 739923\<rparr>,
          \<lparr>isoformat = ''2026-11-03T10:00:01'', day = 739923\<rparr>),
         ([make_ref ''lora'' ''a''],
          \<lparr>isoformat = ''2026-11-03T11:00:00'', day = 739923\<rparr>,
          \<lparr>isoformat = ''2026-11-03T11:00:01'', day = 739923\<rparr>),
         ([make_ref ''lora'' ''a''],
          \<lparr>isoformat = ''2026-11-04T12:00:00'', day = 739924\<rparr>,
          \<lparr>isoformat = ''2026-11-04T12:00:01'', day = 739924\<rparr>)]"
  have e: "models ?d = []"
    by (simp add: create_empty_data_def)
  have s: "sorted (map call_day ?calls)"
    by (simp add: call_day_def)
  have m: "map (\<lambda>p. (fst p, usage_log (snd p))) (models (record_calls ?d ?calls))
     = [(''lora/a'', [\<lparr>date = 739923, count = 2\<rparr>, \<lparr>date = 739924, count = 1\<rparr>]),
        (''vae/b'', [\<lparr>date = 739923, count = 1\<rparr>])]"
    by (simp add: models_record_usage e record_model_def make_ref_def touch_def
        new_model_data_def update_log_def)
  show ?thesis
    using daily_log_one_entry_per_date [OF e s] e s m by simp
qed


section \<open>Properties of the query and of the retention\<close>

lemma date_minus_days_ok:
  "0 < n \<Longrightarrow> n < d \<Longrightarrow> d \<le> MAXORDINAL \<Longrightarrow> date_minus_days d n = Inr (d - n)"
  by (simp add: date_minus_days_def MAXORDINAL_def)

lemma set_sort_models: "set (sort_models sort_by xs) = set xs"
  by (simp add: sort_models_def)

lemma timeframe_cutoff_ok:
  assumes "30 < day now" and "day now \<le> MAXORDINAL"
  shows "timeframe_cutoff timeframe now =
           Inr (if timeframe = ''week'' then Some (day now - 7)
                else if timeframe = ''month'' then Some (day now - 30) else None)"
  using assms by (simp add: timeframe_cutoff_def date_minus_days_ok)

lemma timeframe_count_windowed:
  "timeframe_count_of (if timeframe = ''week'' then Some (today - 7)
                else if timeframe = ''month'' then Some (today - 30) else None) md
   = windowed_count timeframe today md"
  by (simp add: timeframe_count_of_def windowed_count_def)

text \<open>
  Claim C6. With a clock reading later than January of year 1 (so that the cutoff is a
  date), the query returns, for every record that passes the category filter and for no
  other, one summary whose \<open>timeframe_count\<close> is: for \<open>"week"\<close> the sum of the counts of the
  log entries dated on or after today minus 7 days, for \<open>"month"\<close> the same with 30 days,
  and for \<open>"all"\<close> (and any other value) the record's \<open>usage_count\<close>.
\<close>

theorem timeframe_count_by_cutoff:
  assumes "30 < day now" and "day now \<le> MAXORDINAL"
  shows "\<exists>res. get_usage_data data timeframe sort_by cat now = Inr res
           \<and> set (q_models res) =
               (\<lambda>(mid, md). make_summary mid md (windowed_count timeframe (day now) md))
                 ` {p \<in> set (models data). category_passes cat (snd p)}
           \<and> length (q_models res) =
               length (filter (\<lambda>p. category_passes cat (snd p)) (models data))"
proof -
  have l: "length (sort_models sort_by xs) = length xs" for xs
    by (simp add: sort_models_def)
  have f: "(\<lambda>(mid, md). category_passes cat md) = (\<lambda>p. category_passes cat (snd p))"
    by auto
  have "(\<lambda>(mid, md). make_summary mid md (windowed_count timeframe (day now) md))
                 ` {p \<in> set (models data). category_passes cat (snd p)}
        = set (map (\<lambda>(mid, md). make_summary mid md (windowed_count timeframe (day now) md))
                      (filter (\<lambda>(mid, md). category_passes cat md) (models data)))"
    by (auto simp: image_iff)
  then show ?thesis
    by (simp add: get_usage_data_def timeframe_cutoff_ok [OF assms] set_sort_models
        timeframe_count_windowed l f del: set_map set_filter)
qed

theorem timeframe_count_by_cutoff_witness:
  "30 < day \<lparr>isoformat = ''2026-11-04T12:00:00'', day = 739924\<rparr> \<and> day \<lparr>isoformat = ''2026-11-04T12:00:00'', day = 739924\<rparr> \<le> MAXORDINAL
   \<and> (\<exists>res. get_usage_data
        \<lparr>version = 1,
         models = [(''lora/a'',
           \<lparr>rec_category = ''lora'', rec_name = ''a'', path = ''lora/a'',
            first_used = ''2026-09-25T10:00:00Z'', last_used = ''2026-11-02T10:00:00Z'',
            usage_count = 8,
            usage_log = [\<lparr>date = 739884, count = 5\<rparr>, \<lparr>date = 739922, count = 3\<rparr>]\<rparr>)],
         metadata = \<lparr>tracking_started = ''2026-09-25T10:00:00Z'',
                     last_updated = ''2026-11-02T10:00:01Z''\<rparr>\<rparr>
        ''week'' ''last_used'' None \<lparr>isoformat = ''2026-11-04T12:00:00'', day = 739924\<rparr> = Inr res
      \<and> map timeframe_count (q_models res) = [3] \<and> map s_usage_count (q_models res) = [8])"
proof -
  have a: "30 < day \<lparr>isoformat = ''2026-11-04T12:00:00'', day = 739924\<rparr>" by simp
  have b: "day \<lparr>isoformat = ''2026-11-04T12:00:00'', day = 739924\<rparr> \<le> MAXORDINAL" by (simp add: MAXORDINAL_def)
  show ?thesis
    using timeframe_count_by_cutoff [OF a b, of "\<lparr>version = 1,
         models = [(''lora/a'',
           \<lparr>rec_category = ''lora'', rec_name = ''a'', path = ''lora/a'',
            first_used = ''2026-09-25T10:00:00Z'', last_used = ''2026-11-02T10:00:00Z'',
            usage_count = 8,
            usage_log = [\<lparr>date = 739884, count = 5\<rparr>, \<lparr>date = 739922, count = 3\<rparr>]\<rparr>)],
         metadata = \<lparr>tracking_started = ''2026-09-25T10:00:00Z'',
                     last_updated = ''2026-11-02T10:00:01Z''\<rparr>\<rparr>" "''week''" "''last_used''" None] a b
    by (simp add: get_usage_data_def timeframe_cutoff_def date_minus_days_def MAXORDINAL_def
        timeframe_count_of_def category_passes_def sort_models_def make_summary_def)
qed

text \<open>
  Claim C7, as the code has it. For a positive \<open>max_days\<close> smaller than today's day number
  (today minus \<open>max_days\<close> is then a date the calendar has), cleanup returns the document
  with the same keys in the same order, every \<open>usage_log\<close> replaced by its entries dated on
  or after today minus \<open>max_days\<close>, in their order, and every other field of every record
  and of the document unchanged.
\<close>

theorem cleanup_filters_logs_only:
  assumes "0 < max_days" and "max_days < day now" and "day now \<le> MAXORDINAL"
  shows "\<exists>data'. cleanup_old_usage_logs data max_days now = Inr data'
           \<and> version data' = version data \<and> metadata data' = metadata data
           \<and> list_all2
                (\<lambda>p' p. fst p' = fst p
                   \<and> usage_log (snd p') =
                       filter (\<lambda>e. day now - max_days \<le> date e) (usage_log (snd p))
                   \<and> same_but_log (snd p') (snd p))
                (models data') (models data)"
proof -
  have "list_all2
                (\<lambda>p' p. fst p' = fst p
                   \<and> usage_log (snd p') =
                       filter (\<lambda>e. day now - max_days \<le> date e) (usage_log (snd p))
                   \<and> same_but_log (snd p') (snd p))
          (map (\<lambda>(mid, md).
                 (mid, md\<lparr>usage_log := filter (\<lambda>entry. day now - max_days \<le> date entry) (usage_log md)\<rparr>))
               ms) ms" for ms :: "(string \<times> model_data) list"
    by (induction ms) (auto simp: same_but_log_def)
  then show ?thesis
    by (simp add: cleanup_old_usage_logs_def date_minus_days_ok [OF assms])
qed


theorem cleanup_filters_logs_only_witness:
  "(0::int) < 30 \<and> 30 < day \<lparr>isoformat = ''2026-11-04T12:00:00'', day = 739924\<rparr> \<and> day \<lparr>isoformat = ''2026-11-04T12:00:00'', day = 739924\<rparr> \<le> MAXORDINAL
   \<and> (\<exists>data'. cleanup_old_usage_logs
        \<lparr>version = 1,
         models = [(''lora/a'',
           \<lparr>rec_category = ''lora'', rec_name = ''a'', path = ''lora/a'',
            first_used = ''2026-09-25T10:00:00Z'', last_used = ''2026-11-02T10:00:00Z'',
            usage_count = 8,
            usage_log = [\<lparr>date = 739884, count = 5\<rparr>, \<lparr>date = 739914, count = 3\<rparr>]\<rparr>)],
         metadata = \<lparr>tracking_started = ''2026-09-25T10:00:00Z'',
                     last_updated = ''2026-11-02T10:00:01Z''\<rparr>\<rparr>
        30 \<lparr>isoformat = ''2026-11-04T12:00:00'', day = 739924\<rparr> = Inr data'
      \<and> map (\<lambda>p. (usage_log (snd p), usage_count (snd p))) (models data')
          = [([\<lparr>date = 739914, count = 3\<rparr>], 8)])"
proof -
  have a: "(0::int) < 30" by simp
  have b: "30 < day \<lparr>isoformat = ''2026-11-04T12:00:00'', day = 739924\<rparr>" by simp
  have c: "day \<lparr>isoformat = ''2026-11-04T12:00:00'', day = 739924\<rparr> \<le> MAXORDINAL" by (simp add: MAXORDINAL_def)
  show ?thesis
    using cleanup_filters_logs_only [OF a b c, of "\<lparr>version = 1,
         models = [(''lora/a'',
           \<lparr>rec_category = ''lora'', rec_name = ''a'', path = ''lora/a'',
            first_used = ''2026-09-25T10:00:00Z'', last_used = ''2026-11-02T10:00:00Z'',
            usage_count = 8,
            usage_log = [\<lparr>date = 739884, count = 5\<rparr>, \<lparr>date = 739914, count = 3\<rparr>]\<rparr>)],
         metadata = \<lparr>tracking_started = ''2026-09-25T10:00:00Z'',
                     last_updated = ''2026-11-02T10:00:01Z''\<rparr>\<rparr>"] b c
    by (simp add: cleanup_old_usage_logs_def date_minus_days_def MAXORDINAL_def)
qed

text \<open>
  The claim as stated, for every positive \<open>max_days\<close>, fails: on 2026-11-04 (day 739924)
  \<open>max_days = 1000000\<close> makes \<open>date - timedelta(days=max_days)\<close> leave the calendar and raise
  \<open>OverflowError\<close>; no log is filtered.
\<close>

theorem cleanup_raises_on_large_max_days:
  "cleanup_old_usage_logs
        \<lparr>version = 1,
         models = [(''lora/a'',
           \<lparr>rec_category = ''lora'', rec_name = ''a'', path = ''lora/a'',
            first_used = ''2026-09-25T10:00:00Z'', last_used = ''2026-11-02T10:00:00Z'',
            usage_count = 8,
            usage_log = [\<lparr>date = 739884, count = 5\<rparr>, \<lparr>date = 739914, count = 3\<rparr>]\<rparr>)],
         metadata = \<lparr>tracking_started = ''2026-09-25T10:00:00Z'',
                     last_updated = ''2026-11-02T10:00:01Z''\<rparr>\<rparr>
        1000000 \<lparr>isoformat = ''2026-11-04T12:00:00'', day = 739924\<rparr> = Inl OverflowError"
  by (simp add: cleanup_old_usage_logs_def date_minus_days_def MAXORDINAL_def)

section \<open>Properties of the storage\<close>

text \<open>
  The transformation to version 1 does not raise on a document whose \<open>models\<close>, when
  present, is a dict of dicts.
\<close>

lemma migrate_model_dict:
  "\<exists>kvs'. migrate_model (JDict kvs) now = Inr (JDict kvs')"
  by (simp add: migrate_model_def str_in_def set_item_def dict_get_def split: option.split)

lemma migrate_models_dicts:
  "list_all (\<lambda>p. is_dict (snd p)) ms \<Longrightarrow> \<exists>ms'. migrate_models ms now = Inr ms'"
proof (induction ms)
  case Nil
  show ?case by simp
next
  case (Cons p ms)
  obtain mid md where p: "p = (mid, md)" by (cases p)
  from Cons.prems p obtain kvs where md: "md = JDict kvs"
    by (cases md) simp_all
  obtain kvs' where m: "migrate_model (JDict kvs) now = Inr (JDict kvs')"
    using migrate_model_dict by blast
  from Cons obtain ms' where r: "migrate_models ms now = Inr ms'" by auto
  show ?case by (simp add: p md m r)
qed

lemma migrate_to_v1_well_shaped:
  assumes "models_well_shaped kvs"
  shows "\<exists>kvs'. migrate_to_v1 (JDict kvs) now = Inr (JDict kvs')"
proof (cases "map_of kvs ''models''")
  case None
  then have notin: "''models'' \<notin> fst ` set kvs" by (simp add: map_of_eq_None_iff)
  show ?thesis
    by (simp add: migrate_to_v1_def str_in_def set_item_def dict_get_def notin
        update_conv' split: option.split)
next
  case (Some m)
  with assms obtain ms where m: "m = JDict ms" and ok: "list_all (\<lambda>p. is_dict (snd p)) ms"
    by (cases m) (simp_all add: models_well_shaped_def)
  from Some have isin: "''models'' \<in> fst ` set kvs"
    by (metis map_of_eq_None_iff option.distinct(1))
  obtain ms' where r: "migrate_models ms now = Inr ms'"
    using migrate_models_dicts [OF ok] by blast
  show ?thesis
    by (simp add: migrate_to_v1_def str_in_def set_item_def dict_get_def isin Some m r
        update_conv' map_of_eq_None_iff split: option.split)
qed

text \<open>
  Claim C10. \<open>migrate_schema\<close> on a document that is a JSON object with an integer version
  \<open>v\<close> (0 when the field is absent). When \<open>v\<close> is the current schema version the document
  is returned as it is and no file is written. When it is not, the backup file receives the
  document as it was read. When \<open>v\<close> is above the current version no transformation is
  applied: the result is the document with its \<open>version\<close> field set to the current version
  (a downgrade) and every other field as it was. When \<open>v\<close> is below, the document is
  transformed by \<open>migrate_to_v1\<close>, which does not raise when \<open>models\<close> is absent or a dict
  of dicts, and then stamped with the current version.
\<close>

theorem migrate_schema_by_version:
  assumes doc: "data = JDict kvs"
    and ver: "dict_get data ''version'' (JInt 0) = Inr (JInt v)"
  shows "(v = SCHEMA_VERSION \<longrightarrow> migrate_schema fs data now = (fs, Inr data)) \<and>
         (v \<noteq> SCHEMA_VERSION \<longrightarrow>
            fst (migrate_schema fs data now) = fs\<lparr>backup_file := Some data\<rparr>) \<and>
         (SCHEMA_VERSION < v \<longrightarrow>
            snd (migrate_schema fs data now) =
              Inr (JDict (AList.update ''version'' (JInt SCHEMA_VERSION) kvs))) \<and>
         (v < SCHEMA_VERSION \<and> models_well_shaped kvs \<longrightarrow>
            (\<exists>kvs'. migrate_to_v1 data now = Inr (JDict kvs') \<and>
               snd (migrate_schema fs data now) =
                 Inr (JDict (AList.update ''version'' (JInt SCHEMA_VERSION) kvs'))))"
proof (intro conjI impI)
  assume "v = SCHEMA_VERSION"
  then show "migrate_schema fs data now = (fs, Inr data)"
    by (simp add: migrate_schema_def ver py_eq_int_def)
next
  assume "v \<noteq> SCHEMA_VERSION"
  then show "fst (migrate_schema fs data now) = fs\<lparr>backup_file := Some data\<rparr>"
    by (simp add: migrate_schema_def ver py_eq_int_def py_lt_int_def Let_def split: sum.split)
next
  assume "SCHEMA_VERSION < v"
  then show "snd (migrate_schema fs data now) =
      Inr (JDict (AList.update ''version'' (JInt SCHEMA_VERSION) kvs))"
    by (simp add: migrate_schema_def ver [unfolded doc] py_eq_int_def py_lt_int_def Let_def
        set_item_def doc SCHEMA_VERSION_def)
next
  assume a: "v < SCHEMA_VERSION \<and> models_well_shaped kvs"
  then obtain kvs' where m: "migrate_to_v1 data now = Inr (JDict kvs')"
    using migrate_to_v1_well_shaped [of kvs now] doc by blast
  from a have "snd (migrate_schema fs data now) =
      Inr (JDict (AList.update ''version'' (JInt SCHEMA_VERSION) kvs'))"
    by (simp add: migrate_schema_def ver py_eq_int_def py_lt_int_def Let_def set_item_def m
        SCHEMA_VERSION_def)
  with m show "\<exists>kvs'. migrate_to_v1 data now = Inr (JDict kvs') \<and>
      snd (migrate_schema fs data now) =
        Inr (JDict (AList.update ''version'' (JInt SCHEMA_VERSION) kvs'))"
    by blast
qed

text \<open>
  The three cases on documents of versions 1, 3 and 0 (no \<open>version\<close> field).
\<close>

theorem migrate_schema_by_version_witness:
  "dict_get (JDict [(''version'', JInt 1), (''models'', JDict [])]) ''version'' (JInt 0)
     = Inr (JInt 1) \<and>
   migrate_schema \<lparr>storage_file = None, backup_file = None, corrupted_files = []\<rparr>
       (JDict [(''version'', JInt 1), (''models'', JDict [])])
       \<lparr>isoformat = ''2026-11-04T12:00:00'', day = 739924\<rparr>
     = (\<lparr>storage_file = None, backup_file = None, corrupted_files = []\<rparr>,
        Inr (JDict [(''version'', JInt 1), (''models'', JDict [])])) \<and>
   dict_get (JDict [(''models'', JList []), (''version'', JInt 3)]) ''version'' (JInt 0)
     = Inr (JInt 3) \<and>
   SCHEMA_VERSION < 3 \<and>
   migrate_schema \<lparr>storage_file = None, backup_file = None, corrupted_files = []\<rparr>
       (JDict [(''models'', JList []), (''version'', JInt 3)])
       \<lparr>isoformat = ''2026-11-04T12:00:00'', day = 739924\<rparr>
     = (\<lparr>storage_file = None,
         backup_file = Some (JDict [(''models'', JList []), (''version'', JInt 3)]),
         corrupted_files = []\<rparr>,
        Inr (JDict [(''models'', JList []), (''version'', JInt 1)])) \<and>
   dict_get (JDict [(''models'', JDict [(''lora/a'', JDict [(''last_used'', JStr ''x'')])])])
       ''version'' (JInt 0)
     = Inr (JInt 0) \<and>
   0 < SCHEMA_VERSION \<and>
   models_well_shaped [(''models'', JDict [(''lora/a'', JDict [(''last_used'', JStr ''x'')])])] \<and>
   migrate_schema \<lparr>storage_file = None, backup_file = None, corrupted_files = []\<rparr>
       (JDict [(''models'', JDict [(''lora/a'', JDict [(''last_used'', JStr ''x'')])])])
       \<lparr>isoformat = ''2026-11-04T12:00:00'', day = 739924\<rparr>
     = (\<lparr>storage_file = None,
         backup_file =
           Some (JDict [(''models'', JDict [(''lora/a'', JDict [(''last_used'', JStr ''x'')])])]),
         corrupted_files = []\<rparr>,
        Inr (JDict [(''models'',
                     JDict [(''lora/a'', JDict [(''last_used'', JStr ''x''),
                                                (''usage_log'', JList []),
                                                (''first_used'', JStr ''x'')])]),
                    (''metadata'',
                     JDict [(''tracking_started'', JStr ''2026-11-04T12:00:00Z''),
                            (''last_updated'', JStr ''2026-11-04T12:00:00Z'')]),
                    (''version'', JInt 1)]))"
proof -
  let ?fs = "\<lparr>storage_file = None, backup_file = None, corrupted_files = []\<rparr>"
  let ?now = "\<lparr>isoformat = ''2026-11-04T12:00:00'', day = 739924\<rparr>"
  let ?k1 = "[(''version'', JInt 1), (''models'', JDict [])]"
  let ?k3 = "[(''models'', JList []), (''version'', JInt 3)]"
  let ?k0 = "[(''models'', JDict [(''lora/a'', JDict [(''last_used'', JStr ''x'')])])]"
  have v1: "dict_get (JDict ?k1) ''version'' (JInt 0) = Inr (JInt 1)"
    by (simp add: dict_get_def)
  have v3: "dict_get (JDict ?k3) ''version'' (JInt 0) = Inr (JInt 3)"
    by (simp add: dict_get_def)
  have v0: "dict_get (JDict ?k0) ''version'' (JInt 0) = Inr (JInt 0)"
    by (simp add: dict_get_def)
  have ws: "models_well_shaped ?k0"
    by (simp add: models_well_shaped_def)
  have m0: "migrate_to_v1 (JDict ?k0) ?now =
      Inr (JDict [(''models'',
                     JDict [(''lora/a'', JDict [(''last_used'', JStr ''x''),
                                                (''usage_log'', JList []),
                                                (''first_used'', JStr ''x'')])]),
                    (''metadata'',
                     JDict [(''tracking_started'', JStr ''2026-11-04T12:00:00Z''),
                            (''last_updated'', JStr ''2026-11-04T12:00:00Z'')])])"
    by (simp add: migrate_to_v1_def migrate_model_def str_in_def set_item_def dict_get_def
        now_iso_def)
  have s: "SCHEMA_VERSION = 1" by (simp add: SCHEMA_VERSION_def)
  note t1 = migrate_schema_by_version [OF refl v1, of ?fs ?now]
  note t3 = migrate_schema_by_version [OF refl v3, of ?fs ?now]
  note t0 = migrate_schema_by_version [OF refl v0, of ?fs ?now]
  have r1: "migrate_schema ?fs (JDict ?k1) ?now = (?fs, Inr (JDict ?k1))"
    using t1 s by simp
  have r3: "migrate_schema ?fs (JDict ?k3) ?now =
      (?fs\<lparr>backup_file := Some (JDict ?k3)\<rparr>,
       Inr (JDict (AList.update ''version'' (JInt SCHEMA_VERSION) ?k3)))"
    using t3 s by (simp add: prod_eq_iff)
  have r0: "migrate_schema ?fs (JDict ?k0) ?now =
      (?fs\<lparr>backup_file := Some (JDict ?k0)\<rparr>,
       Inr (JDict [(''models'',
                     JDict [(''lora/a'', JDict [(''last_used'', JStr ''x''),
                                                (''usage_log'', JList []),
                                                (''first_used'', JStr ''x'')])]),
                    (''metadata'',
                     JDict [(''tracking_started'', JStr ''2026-11-04T12:00:00Z''),
                            (''last_updated'', JStr ''2026-11-04T12:00:00Z'')]),
                    (''version'', JInt 1)]))"
    using t0 s ws by (simp add: prod_eq_iff m0)
  show ?thesis
    using v1 v3 v0 ws r1 r3 r0 s by simp
qed

text \<open>
  The handler of \<open>load_data\<close> at work, for a file whose text is not JSON
  (\<open>JSONDecodeError\<close>): the file is renamed aside under the timestamp of the renaming, a new
  empty document is written in its place and returned; its \<open>version\<close> is the current schema
  version, \<open>models\<close> is empty, and no exception reaches the caller.
\<close>

lemma load_quarantines_invalid_json:
  assumes "storage_file fs = Some Malformed"
  shows "load_data fs migrated renamed created saved =
           (fs\<lparr>storage_file :=
                 Some (Json (JDict [(''version'', JInt SCHEMA_VERSION),
                                    (''models'', JDict []),
                                    (''metadata'',
                                     JDict [(''tracking_started'', JStr (now_iso created)),
                                            (''last_updated'', JStr (now_iso saved))])])),
               corrupted_files :=
                 AList.update (strftime_compact renamed) Malformed (corrupted_files fs)\<rparr>,
            Inr (JDict [(''version'', JInt SCHEMA_VERSION),
                        (''models'', JDict []),
                        (''metadata'',
                         JDict [(''tracking_started'', JStr (now_iso created)),
                                (''last_updated'', JStr (now_iso saved))])]))"
  using assms
  by (simp add: load_data_def json_load_def handled_def recover_def backup_corrupted_file_def
      create_empty_data_json_def save_data_def get_item_def set_item_def)

text \<open>
  A file of invalid JSON read at 12:00:00 on 2026-11-04.
\<close>

lemma load_quarantines_invalid_json_example:
  "storage_file \<lparr>storage_file = Some Malformed, backup_file = None, corrupted_files = []\<rparr>
     = Some Malformed \<and>
   load_data \<lparr>storage_file = Some Malformed, backup_file = None, corrupted_files = []\<rparr>
       \<lparr>isoformat = ''2026-11-04T12:00:00'', day = 739924\<rparr>
       \<lparr>isoformat = ''2026-11-04T12:00:00.000150'', day = 739924\<rparr>
       \<lparr>isoformat = ''2026-11-04T12:00:00.000200'', day = 739924\<rparr>
       \<lparr>isoformat = ''2026-11-04T12:00:00.000250'', day = 739924\<rparr>
     = (\<lparr>storage_file =
           Some (Json (JDict [(''version'', JInt 1),
                              (''models'', JDict []),
                              (''metadata'',
                               JDict [(''tracking_started'', JStr ''2026-11-04T12:00:00.000200Z''),
                                      (''last_updated'', JStr ''2026-11-04T12:00:00.000250Z'')])])),
         backup_file = None,
         corrupted_files = [(''20261104_120000'', Malformed)]\<rparr>,
        Inr (JDict [(''version'', JInt 1),
                    (''models'', JDict []),
                    (''metadata'',
                     JDict [(''tracking_started'', JStr ''2026-11-04T12:00:00.000200Z''),
                            (''last_updated'', JStr ''2026-11-04T12:00:00.000250Z'')])]))"
  using load_quarantines_invalid_json
    [of "\<lparr>storage_file = Some Malformed, backup_file = None, corrupted_files = []\<rparr>"
        "\<lparr>isoformat = ''2026-11-04T12:00:00'', day = 739924\<rparr>"
        "\<lparr>isoformat = ''2026-11-04T12:00:00.000150'', day = 739924\<rparr>"
        "\<lparr>isoformat = ''2026-11-04T12:00:00.000200'', day = 739924\<rparr>"
        "\<lparr>isoformat = ''2026-11-04T12:00:00.000250'', day = 739924\<rparr>"]
  by (simp add: strftime_compact_def now_iso_def SCHEMA_VERSION_def)

text \<open>
  Claim C8: a file that fails to parse as a usage document is renamed aside, a new empty
  document is returned and no exception reaches the caller. \<open>load_data\<close> does not do this
  for two such files. Bytes that are not UTF-8 make \<open>json.load\<close> raise
  \<open>UnicodeDecodeError\<close>, and a file holding the JSON value \<open>[]\<close> makes \<open>migrate_schema\<close>
  raise \<open>AttributeError\<close> at \<open>data.get\<close>. The handler, which its comment describes as
  ``Corrupted file - backup and create fresh'', names \<open>JSONDecodeError\<close> and \<open>KeyError\<close> only
  (no statement of the \<open>try\<close> block raises \<open>KeyError\<close>), so in both cases the exception
  reaches the caller and the file stays where it is.
\<close>

theorem load_raises_on_unparsed_content:
  "load_data \<lparr>storage_file = Some Undecodable, backup_file = None, corrupted_files = []\<rparr>
       \<lparr>isoformat = ''2026-11-04T12:00:00'', day = 739924\<rparr>
       \<lparr>isoformat = ''2026-11-04T12:00:00'', day = 739924\<rparr>
       \<lparr>isoformat = ''2026-11-04T12:00:00'', day = 739924\<rparr>
       \<lparr>isoformat = ''2026-11-04T12:00:00'', day = 739924\<rparr>
     = (\<lparr>storage_file = Some Undecodable, backup_file = None, corrupted_files = []\<rparr>,
        Inl UnicodeDecodeError) \<and>
   load_data \<lparr>storage_file = Some (Json (JList [])), backup_file = None, corrupted_files = []\<rparr>
       \<lparr>isoformat = ''2026-11-04T12:00:00'', day = 739924\<rparr>
       \<lparr>isoformat = ''2026-11-04T12:00:00'', day = 739924\<rparr>
       \<lparr>isoformat = ''2026-11-04T12:00:00'', day = 739924\<rparr>
       \<lparr>isoformat = ''2026-11-04T12:00:00'', day = 739924\<rparr>
     = (\<lparr>storage_file = Some (Json (JList [])), backup_file = None, corrupted_files = []\<rparr>,
        Inl AttributeError)"
  by (simp add: load_data_def json_load_def handled_def migrate_schema_def dict_get_def)

end
